theory Spec2Isabelle
  imports Main "HOL-Library.Word" "HOL-Library.Signed_Division"
begin

unbundle bit_operations_syntax

section \<open>Errors and results\<close>

text \<open>
  Every failure of the assembler is a C++ exception that ends the run.  The repository's
  own code throws \<open>std::runtime_error\<close> with a message; \<open>std::stoi\<close> and
  \<open>std::stoull\<close> throw \<open>std::invalid_argument\<close> and \<open>std::out_of_range\<close>, and
  \<open>std::string::substr\<close> throws \<open>std::out_of_range\<close>.  The string carried by a
  constructor is the text of \<open>what()\<close>.  Where C++ leaves the behaviour undefined
  (\<open>front()\<close>, \<open>back()\<close> and \<open>pop_back()\<close> on an empty string, an index past the end of
  \<open>args\<close>) the model stops with \<open>UndefinedBehaviour\<close>, so that no theorem about a
  successful run speaks about such an execution.
\<close>

datatype error =
    RuntimeError string
  | InvalidArgument string
  | OutOfRange string
  | UndefinedBehaviour string

fun bindE :: "error + 'a \<Rightarrow> ('a \<Rightarrow> error + 'b) \<Rightarrow> error + 'b" where
  "bindE (Inl e) f = Inl e"
| "bindE (Inr x) f = f x"

section \<open>Tokens (token.h)\<close>

text \<open>The token kind \<open>INT\<close> of the source is written \<open>INT_tok\<close>.\<close>

datatype TokenType =
  NONE | DOTID | LABEL | ID | HEXINT | REG | ZREG | INT_tok | COMMA | LBRACK | RBRACK | NEWLINE

record Token =
  type :: TokenType
  lexeme :: string

definition tok :: "TokenType \<Rightarrow> string \<Rightarrow> Token" where
  "tok k s = \<lparr>type = k, lexeme = s\<rparr>"

section \<open>Characters and the C library's number parsers\<close>

text \<open>\<open>std::isspace\<close> and \<open>std::isdigit\<close> in the "C" locale.\<close>

definition isspace :: "char \<Rightarrow> bool" where
  "isspace c = (c = CHR '' '' \<or> (9 \<le> (of_char c :: nat) \<and> (of_char c :: nat) \<le> 13))"

definition isdigit :: "char \<Rightarrow> bool" where
  "isdigit c = (48 \<le> (of_char c :: nat) \<and> (of_char c :: nat) \<le> 57)"

text \<open>
  \<open>s[i]\<close> on a \<open>std::string\<close>: the character at \<open>i\<close>, and the terminating NUL at
  \<open>i = size()\<close>.  The source never indexes further.
\<close>

definition char_at :: "string \<Rightarrow> nat \<Rightarrow> char" where
  "char_at s i = (if i < length s then s ! i else CHR 0x00)"

text \<open>
  The value of a character as a digit in a base, as \<open>strtol\<close> reads it: \<open>0\<close>-\<open>9\<close>, then
  letters of either case for ten and above; \<open>None\<close> when the character is no digit of the
  base.
\<close>

definition digit_of :: "nat \<Rightarrow> char \<Rightarrow> nat option" where
  "digit_of base c =
     (let n = (of_char c :: nat);
          v = (if 48 \<le> n \<and> n \<le> 57 then Some (n - 48)
               else if 97 \<le> n \<and> n \<le> 122 then Some (n - 87)
               else if 65 \<le> n \<and> n \<le> 90 then Some (n - 55)
               else None)
      in case v of None \<Rightarrow> None | Some d \<Rightarrow> if d < base then Some d else None)"

definition is_digit_of :: "nat \<Rightarrow> char \<Rightarrow> bool" where
  "is_digit_of base c = (digit_of base c \<noteq> None)"

definition digits_value :: "nat \<Rightarrow> string \<Rightarrow> int" where
  "digits_value base ds = foldl (\<lambda>acc c. acc * int base + int (the (digit_of base c))) 0 ds"

text \<open>
  The subject sequence of \<open>strtol\<close>/\<open>strtoull\<close> (C standard, 7.22.1.4): leading white
  space is skipped, then an optional sign, then for base 16 (and base 0) an optional
  \<open>0x\<close>/\<open>0X\<close> that is followed by a hexadecimal digit; base 0 reads a leading \<open>0\<close> as
  octal and anything else as decimal.  The digits are the longest run of digits of the
  base; what follows them is ignored.  The result is the sign, and the unbounded
  (non-negative) value of the digits; \<open>None\<close> when there is no digit (no conversion).
\<close>

definition has_hex_prefix :: "string \<Rightarrow> bool" where
  "has_hex_prefix s =
     (length s > 2 \<and> s ! 0 = CHR ''0'' \<and> (s ! 1 = CHR ''x'' \<or> s ! 1 = CHR ''X'')
      \<and> is_digit_of 16 (s ! 2))"

definition strto_scan :: "nat \<Rightarrow> string \<Rightarrow> (bool \<times> int) option" where
  "strto_scan base s =
     (let s1 = dropWhile isspace s;
          neg = (s1 \<noteq> [] \<and> hd s1 = CHR ''-'');
          s2 = (if s1 \<noteq> [] \<and> (hd s1 = CHR ''-'' \<or> hd s1 = CHR ''+'') then tl s1 else s1);
          b = (if base = 0
               then (if has_hex_prefix s2 then 16
                     else if s2 \<noteq> [] \<and> hd s2 = CHR ''0'' then 8 else 10)
               else base);
          s3 = (if (base = 0 \<or> base = 16) \<and> has_hex_prefix s2 then drop 2 s2 else s2);
          ds = takeWhile (is_digit_of b) s3
      in if ds = [] then None else Some (neg, digits_value b ds))"

text \<open>
  \<open>std::stoi(s, nullptr, base)\<close>: \<open>invalid_argument\<close> when nothing converts,
  \<open>out_of_range\<close> when the value is no \<open>int\<close> (32 bits).
\<close>

definition stoi :: "string \<Rightarrow> nat \<Rightarrow> error + int" where
  "stoi s base =
     (case strto_scan base s of
        None \<Rightarrow> Inl (InvalidArgument ''stoi'')
      | Some (neg, v) \<Rightarrow>
          (let r = (if neg then - v else v)
           in if r < - (2 ^ 31) \<or> 2 ^ 31 - 1 < r then Inl (OutOfRange ''stoi'') else Inr r))"

text \<open>
  \<open>std::stoull(s, nullptr, base)\<close>: \<open>out_of_range\<close> when the digits exceed 64 bits; a
  minus sign negates the value modulo \<open>2^64\<close>, as \<open>strtoull\<close> does.
\<close>

definition stoull :: "string \<Rightarrow> nat \<Rightarrow> error + 64 word" where
  "stoull s base =
     (case strto_scan base s of
        None \<Rightarrow> Inl (InvalidArgument ''stoull'')
      | Some (neg, v) \<Rightarrow>
          if 2 ^ 64 - 1 < v then Inl (OutOfRange ''stoull'')
          else Inr (if neg then - (word_of_int v) else word_of_int v))"

section \<open>SymbolTable (symbol\_table.h)\<close>

text \<open>The private members \<open>table_\<close> and \<open>order_\<close> are the fields \<open>sym_table\<close> and \<open>sym_order\<close>.\<close>

record SymbolTable =
  sym_table :: "string \<rightharpoonup> 64 word"
  sym_order :: "string list"

definition empty_symbols :: SymbolTable where
  "empty_symbols = \<lparr>sym_table = Map.empty, sym_order = []\<rparr>"

text \<open>
  \<open>define\<close> (here \<open>define_sym\<close>) mutates the object or throws.  The model returns
  the exception, if any, together with the state of the object after the call.
\<close>

definition define_sym :: "string \<Rightarrow> 64 word \<Rightarrow> SymbolTable \<Rightarrow> error option \<times> SymbolTable" where
  "define_sym name address st =
     (if sym_table st name \<noteq> None
      then (Some (RuntimeError (''Duplicate label: '' @ name)), st)
      else (None, st\<lparr>sym_table := (sym_table st)(name \<mapsto> address),
                      sym_order := sym_order st @ [name]\<rparr>))"

definition lookup :: "string \<Rightarrow> SymbolTable \<Rightarrow> error + 64 word" where
  "lookup name st =
     (case sym_table st name of
        None \<Rightarrow> Inl (RuntimeError (''Undefined label: '' @ name))
      | Some a \<Rightarrow> Inr a)"

definition contains :: "string \<Rightarrow> SymbolTable \<Rightarrow> bool" where
  "contains name st = (sym_table st name \<noteq> None)"

definition order :: "SymbolTable \<Rightarrow> string list" where
  "order st = sym_order st"

section \<open>Encoder (encoder.h)\<close>

text \<open>
  The encoder's arguments are C++ \<open>int\<close>s.  They are modelled as integers; every value
  the assembler passes is the result of \<open>readReg\<close>, of \<open>std::stoi\<close>, of a condition
  code or of a cast to \<open>int\<close>, hence a 32-bit value, and no operation of the encoder
  overflows on such values.  \<open>/\<close> and \<open>%\<close> of C++ truncate towards zero: \<open>sdiv\<close> and
  \<open>smod\<close>.  The conversion of an \<open>int\<close> to \<open>uint32_t\<close> is \<open>word_of_int\<close>.
\<close>

definition validRegister :: "int \<Rightarrow> bool" where
  "validRegister r = (0 \<le> r \<and> r \<le> 31)"

definition validSignedImm :: "int \<Rightarrow> nat \<Rightarrow> bool" where
  "validSignedImm v bits =
     (let lo = - (push_bit (bits - 1) (1::int));
          hi = push_bit (bits - 1) (1::int) - 1
      in lo \<le> v \<and> v \<le> hi)"

definition readImm :: "string \<Rightarrow> error + int" where
  "readImm s =
     (if length s > 2 \<and> s ! 0 = CHR ''0'' \<and> (s ! 1 = CHR ''x'' \<or> s ! 1 = CHR ''X'')
      then stoi (drop 2 s) 16
      else stoi s 10)"

definition readReg :: "string \<Rightarrow> error + 32 word" where
  "readReg s =
     (if s = ''xzr'' \<or> s = ''sp'' then Inr 31
      else if char_at s 0 \<noteq> CHR ''x'' then Inl (RuntimeError (''Invalid register: '' @ s))
      else bindE (stoi (drop 1 s) 10) (\<lambda>v.
        if v < 0 \<or> v > 30 then Inl (RuntimeError (''Register out of range: '' @ s))
        else Inr (word_of_int v)))"

definition emit32le :: "32 word \<Rightarrow> 8 word list" where
  "emit32le w =
     [ucast (w AND 0xFF), ucast (drop_bit 8 w AND 0xFF),
      ucast (drop_bit 16 w AND 0xFF), ucast (drop_bit 24 w AND 0xFF)]"

definition emit64le :: "64 word \<Rightarrow> 8 word list" where
  "emit64le w = map (\<lambda>i. ucast (drop_bit (8 * i) w AND 0xFF)) [0..<8]"

definition requireReg :: "int \<Rightarrow> error + unit" where
  "requireReg r = (if \<not> validRegister r then Inl (RuntimeError ''Invalid register value'') else Inr ())"

definition encodeRRR :: "32 word \<Rightarrow> int \<Rightarrow> int \<Rightarrow> int \<Rightarrow> error + 32 word" where
  "encodeRRR base rd rn rm =
     bindE (requireReg rd) (\<lambda>_. bindE (requireReg rn) (\<lambda>_. bindE (requireReg rm) (\<lambda>_.
       Inr (base OR word_of_int rd OR word_of_int (push_bit 5 rn) OR word_of_int (push_bit 16 rm)))))"

definition encodeCmp :: "int \<Rightarrow> int \<Rightarrow> error + 32 word" where
  "encodeCmp rn rm =
     bindE (requireReg rn) (\<lambda>_. bindE (requireReg rm) (\<lambda>_.
       Inr (0xEB20601F OR word_of_int (push_bit 5 rn) OR word_of_int (push_bit 16 rm))))"

definition encodeBranchReg :: "32 word \<Rightarrow> int \<Rightarrow> error + 32 word" where
  "encodeBranchReg base rn =
     bindE (requireReg rn) (\<lambda>_. Inr (base OR word_of_int (push_bit 5 rn)))"

definition encodeMem :: "32 word \<Rightarrow> int \<Rightarrow> int \<Rightarrow> int \<Rightarrow> error + 32 word" where
  "encodeMem base rt rn imm =
     bindE (requireReg rt) (\<lambda>_. bindE (requireReg rn) (\<lambda>_.
       if \<not> validSignedImm imm 9
       then Inl (RuntimeError ''Immediate out of range for ldur/stur'')
       else (let imm9 = (word_of_int imm :: 32 word) AND 0x1FF
             in Inr (base OR word_of_int rt OR word_of_int (push_bit 5 rn) OR push_bit 12 imm9))))"

definition encodeLdr :: "int \<Rightarrow> int \<Rightarrow> error + 32 word" where
  "encodeLdr rd offset =
     (if offset smod 4 \<noteq> 0 then Inl (RuntimeError ''ldr offset must be divisible by 4'')
      else bindE (requireReg rd) (\<lambda>_.
        if \<not> validSignedImm (offset sdiv 4) 19 then Inl (RuntimeError ''ldr offset out of range'')
        else (let imm19 = (word_of_int (offset sdiv 4) :: 32 word) AND 0x7FFFF
              in Inr (0x58000000 OR word_of_int rd OR push_bit 5 imm19))))"

definition encodeBranch :: "int \<Rightarrow> error + 32 word" where
  "encodeBranch offset =
     (if offset smod 4 \<noteq> 0 then Inl (RuntimeError ''b offset must be divisible by 4'')
      else if \<not> validSignedImm (offset sdiv 4) 26 then Inl (RuntimeError ''b offset out of range'')
      else (let imm26 = (word_of_int (offset sdiv 4) :: 32 word) AND 0x3FFFFFF
            in Inr (0x14000000 OR imm26)))"

definition encodeBCond :: "int \<Rightarrow> int \<Rightarrow> error + 32 word" where
  "encodeBCond cond offset =
     (if offset smod 4 \<noteq> 0 then Inl (RuntimeError ''b.cond offset must be divisible by 4'')
      else if \<not> validSignedImm (offset sdiv 4) 19 then Inl (RuntimeError ''b.cond offset out of range'')
      else if cond < 0 \<or> cond > 13 then Inl (RuntimeError ''Invalid condition code'')
      else (let imm19 = (word_of_int (offset sdiv 4) :: 32 word) AND 0x7FFFF
            in Inr (0x54000000 OR push_bit 5 imm19 OR word_of_int (cond AND 0x1F))))"

definition encode :: "string \<Rightarrow> int \<Rightarrow> int \<Rightarrow> int \<Rightarrow> error + 32 word" where
  "encode instr a b c =
     (if instr = ''add'' then encodeRRR 0x8B206000 a b c
      else if instr = ''sub'' then encodeRRR 0xCB206000 a b c
      else if instr = ''mul'' then encodeRRR 0x9B007C00 a b c
      else if instr = ''smulh'' then encodeRRR 0x9B407C00 a b c
      else if instr = ''umulh'' then encodeRRR 0x9BC07C00 a b c
      else if instr = ''sdiv'' then encodeRRR 0x9AC00C00 a b c
      else if instr = ''udiv'' then encodeRRR 0x9AC00800 a b c
      else if instr = ''cmp'' then encodeCmp a b
      else if instr = ''br'' then encodeBranchReg 0xD61F0000 a
      else if instr = ''blr'' then encodeBranchReg 0xD63F0000 a
      else if instr = ''ldur'' then encodeMem 0xF8400000 a b c
      else if instr = ''stur'' then encodeMem 0xF8000000 a b c
      else if instr = ''ldr'' then encodeLdr a b
      else if instr = ''b'' then encodeBranch a
      else if instr = ''b.cond'' then encodeBCond a b
      else Inl (RuntimeError (''Unknown instruction: '' @ instr)))"

section \<open>Assembler (assembler.h)\<close>

definition patterns :: "string \<rightharpoonup> string" where
  "patterns = map_of
     [(''add'', ''rcrcz''), (''sub'', ''rcrcz''),
      (''mul'', ''rcrcz''), (''smulh'', ''rcrcz''),
      (''umulh'', ''rcrcz''), (''sdiv'', ''rcrcz''),
      (''udiv'', ''rcrcz''), (''cmp'', ''rcz''),
      (''br'', ''r''), (''blr'', ''r''),
      (''ldur'', ''rclrcit''), (''stur'', ''rclrcit''),
      (''ldr'', ''rcj''), (''b'', ''j'')]"

definition condCodes :: "string \<rightharpoonup> int" where
  "condCodes = map_of
     [(''.eq'', 0), (''.ne'', 1), (''.hs'', 2), (''.lo'', 3),
      (''.hi'', 8), (''.ls'', 9), (''.ge'', 10), (''.lt'', 11),
      (''.gt'', 12), (''.le'', 13)]"

text \<open>
  \<open>groupLines\<close>: the body of the loop over the tokens, on the pair of the statement
  being collected (\<open>cur\<close>) and the statements closed so far (\<open>lines\<close>), and the final
  flush of an unterminated statement.
\<close>

definition groupLines_step :: "Token list \<times> Token list list \<Rightarrow> Token \<Rightarrow> Token list \<times> Token list list" where
  "groupLines_step s t =
     (case s of (cur, lines) \<Rightarrow>
        if type t = NEWLINE
        then (if cur \<noteq> [] then ([], lines @ [cur]) else (cur, lines))
        else (cur @ [t], lines))"

definition groupLines :: "Token list \<Rightarrow> Token list list" where
  "groupLines tokens =
     (case foldl groupLines_step ([], []) tokens of
        (cur, lines) \<Rightarrow> if cur \<noteq> [] then lines @ [cur] else lines)"

subsection \<open>Pass 1\<close>

text \<open>
  The name of a label: \<open>if (name.back() == ':') name.pop_back()\<close>.  \<open>back()\<close> on an
  empty lexeme is undefined.
\<close>

definition label_name :: "string \<Rightarrow> error + string" where
  "label_name lx =
     (if lx = [] then Inl (UndefinedBehaviour ''back() on an empty string'')
      else Inr (if last lx = CHR '':'' then butlast lx else lx))"

text \<open>The body of the loop of \<open>pass1\<close>, on the local \<open>pc\<close> and the member \<open>symbols_\<close>.\<close>

definition pass1_line :: "Token list \<Rightarrow> 64 word \<times> SymbolTable \<Rightarrow> error + (64 word \<times> SymbolTable)" where
  "pass1_line line s =
     (case s of (pc, syms) \<Rightarrow>
        if length line = 1 \<and> type (line ! 0) = LABEL then
          (case label_name (lexeme (line ! 0)) of
             Inl e \<Rightarrow> Inl e
           | Inr name \<Rightarrow>
               (case define_sym name pc syms of
                  (Some e, _) \<Rightarrow> Inl e
                | (None, syms') \<Rightarrow> Inr (pc, syms')))
        else if line \<noteq> [] \<and> type (line ! 0) = DOTID \<and> lexeme (line ! 0) = ''.8byte'' then
          Inr (pc + 8, syms)
        else Inr (pc + 4, syms))"

fun pass1_loop :: "Token list list \<Rightarrow> 64 word \<times> SymbolTable \<Rightarrow> error + (64 word \<times> SymbolTable)" where
  "pass1_loop [] s = Inr s"
| "pass1_loop (line # rest) s =
     (case pass1_line line s of Inl e \<Rightarrow> Inl e | Inr s' \<Rightarrow> pass1_loop rest s')"

definition pass1 :: "Token list list \<Rightarrow> error + SymbolTable" where
  "pass1 lines = bindE (pass1_loop lines (0, empty_symbols)) (\<lambda>s. Inr (snd s))"

subsection \<open>Pass 2\<close>

text \<open>
  \<open>args[ai++] = v\<close> on the array \<open>int args[3]\<close>.  No pattern of the table stores more
  than three values; an index past the end would be undefined behaviour.
\<close>

definition store_arg :: "int list \<Rightarrow> nat \<Rightarrow> int \<Rightarrow> error + (int list \<times> nat)" where
  "store_arg args ai v =
     (if ai < length args then Inr (args[ai := v], Suc ai)
      else Inl (UndefinedBehaviour ''index past the end of args''))"

text \<open>
  The \<open>switch\<close> on the pattern character, for the token \<open>t\<close> just read.  \<open>readReg\<close>
  returns a \<open>uint32_t\<close>, stored into an \<open>int\<close>.  For a label, the difference of the two
  addresses is taken on 64 bits and then cast to \<open>int\<close>, which keeps its low 32 bits.
  The single quote of the two bracket messages is written \<open>CHR 0x27\<close>.
\<close>

definition decodeOperand ::
    "SymbolTable \<Rightarrow> 64 word \<Rightarrow> char \<Rightarrow> Token \<Rightarrow> int list \<Rightarrow> nat \<Rightarrow> error + (int list \<times> nat)" where
  "decodeOperand syms pc p t args ai =
     (if p = CHR ''r'' then
        (if type t = REG \<or> (type t = ID \<and> lexeme t = ''sp'')
         then bindE (readReg (lexeme t)) (\<lambda>r. store_arg args ai (sint r))
         else Inl (RuntimeError ''Expected register or sp''))
      else if p = CHR ''z'' then
        (if type t \<noteq> REG \<and> type t \<noteq> ZREG
         then Inl (RuntimeError ''Expected register or xzr'')
         else bindE (readReg (lexeme t)) (\<lambda>r. store_arg args ai (sint r)))
      else if p = CHR ''c'' then
        (if type t \<noteq> COMMA then Inl (RuntimeError ''Expected comma'') else Inr (args, ai))
      else if p = CHR ''l'' then
        (if type t \<noteq> LBRACK
         then Inl (RuntimeError (''Expected '' @ [CHR 0x27, CHR ''['', CHR 0x27]))
         else Inr (args, ai))
      else if p = CHR ''t'' then
        (if type t \<noteq> RBRACK
         then Inl (RuntimeError (''Expected '' @ [CHR 0x27, CHR '']'', CHR 0x27]))
         else Inr (args, ai))
      else if p = CHR ''i'' then
        (if type t = INT_tok \<or> type t = HEXINT
         then bindE (readImm (lexeme t)) (\<lambda>v. store_arg args ai v)
         else Inl (RuntimeError ''Expected immediate''))
      else if p = CHR ''j'' then
        (if type t = INT_tok \<or> type t = HEXINT
         then bindE (readImm (lexeme t)) (\<lambda>v. store_arg args ai v)
         else if type t = ID
         then bindE (lookup (lexeme t) syms) (\<lambda>a.
                store_arg args ai (sint (ucast (a - pc) :: 32 word)))
         else Inl (RuntimeError ''Expected immediate or label''))
      else Inr (args, ai))"

text \<open>The loop over the pattern; \<open>ti\<close> is the index of the next token of the line.\<close>

fun operands ::
    "SymbolTable \<Rightarrow> 64 word \<Rightarrow> string \<Rightarrow> Token list \<Rightarrow> string \<Rightarrow> nat \<Rightarrow> int list \<Rightarrow> nat
      \<Rightarrow> error + (nat \<times> int list)" where
  "operands syms pc instr line [] ti args ai = Inr (ti, args)"
| "operands syms pc instr line (p # ps) ti args ai =
     (if ti \<ge> length line then Inl (RuntimeError (''Too few operands for '' @ instr))
      else (case decodeOperand syms pc p (line ! ti) args ai of
              Inl e \<Rightarrow> Inl e
            | Inr (args', ai') \<Rightarrow> operands syms pc instr line ps (Suc ti) args' ai'))"

text \<open>
  The \<open>b.cond\<close> special case: the mnemonic, the pattern, the argument array, \<open>ai\<close> and
  \<open>ti\<close> after it.
\<close>

definition bcond_case ::
    "string \<Rightarrow> string \<Rightarrow> Token list \<Rightarrow> error + (string \<times> string \<times> int list \<times> nat \<times> nat)" where
  "bcond_case instr pattern line =
     (if instr = ''b'' \<and> length line > 1 \<and> type (line ! 1) = DOTID then
        (case condCodes (lexeme (line ! 1)) of
           None \<Rightarrow> Inl (RuntimeError (''Invalid condition: '' @ lexeme (line ! 1)))
         | Some cc \<Rightarrow>
             (case patterns ''b'' of
                None \<Rightarrow> Inl (OutOfRange ''map::at'')
              | Some pb \<Rightarrow> Inr (''b.cond'', pb, [0, 0, 0][0 := cc], 1, 2)))
      else Inr (instr, pattern, [0, 0, 0], 0, 1))"

text \<open>
  The body of the loop of \<open>pass2\<close> for one statement at address \<open>pc\<close>: the bytes written
  to standard output and the next \<open>pc\<close>, or the exception.
\<close>

definition pass2_line :: "SymbolTable \<Rightarrow> 64 word \<Rightarrow> Token list \<Rightarrow> error + (8 word list \<times> 64 word)" where
  "pass2_line syms pc line =
     (if line = [] then Inr ([], pc)
      else if length line = 1 \<and> type (line ! 0) = LABEL then Inr ([], pc)
      else if type (line ! 0) = DOTID \<and> lexeme (line ! 0) = ''.8byte'' then
        (if length line < 2 then Inl (RuntimeError ''Missing operand for .8byte'')
         else bindE (if type (line ! 1) = ID then lookup (lexeme (line ! 1)) syms
                     else stoull (lexeme (line ! 1)) 0)
                (\<lambda>val. Inr (emit64le val, pc + 8)))
      else if type (line ! 0) \<noteq> ID then
        Inl (RuntimeError (''Expected instruction, got: '' @ lexeme (line ! 0)))
      else
        (let instr = lexeme (line ! 0); it = patterns instr
         in if it = None \<and> instr \<noteq> ''b'' then Inl (RuntimeError (''Unknown instruction: '' @ instr))
            else bindE (bcond_case instr (case it of Some p \<Rightarrow> p | None \<Rightarrow> []) line)
              (\<lambda>(instr', pattern, args, ai, ti).
                 if pattern = [] then Inl (RuntimeError (''No pattern for instruction: '' @ instr'))
                 else bindE (operands syms pc instr' line pattern ti args ai) (\<lambda>(ti', args').
                   if ti' < length line then Inl (RuntimeError (''Extra tokens after '' @ instr'))
                   else bindE (encode instr' (args' ! 0) (args' ! 1) (args' ! 2)) (\<lambda>word.
                     Inr (emit32le word, pc + 4))))))"

text \<open>
  The loop of \<open>pass2\<close> from address \<open>pc\<close>: the bytes written to standard output (also
  those written before an exception), the final \<open>pc\<close>, and the exception if one was thrown.
\<close>

fun pass2_loop :: "SymbolTable \<Rightarrow> 64 word \<Rightarrow> Token list list \<Rightarrow> 8 word list \<times> 64 word \<times> error option" where
  "pass2_loop syms pc [] = ([], pc, None)"
| "pass2_loop syms pc (line # rest) =
     (case pass2_line syms pc line of
        Inl e \<Rightarrow> ([], pc, Some e)
      | Inr (bytes, pc') \<Rightarrow>
          (case pass2_loop syms pc' rest of (out, pc_end, r) \<Rightarrow> (bytes @ out, pc_end, r)))"

definition pass2 :: "SymbolTable \<Rightarrow> Token list list \<Rightarrow> 8 word list \<times> error option" where
  "pass2 syms lines = (case pass2_loop syms 0 lines of (out, pc_end, r) \<Rightarrow> (out, r))"

text \<open>
  \<open>dumpSymbols\<close> writes one line per label, in the order of \<open>order()\<close>; the model keeps
  the name and the address of each line, not the decimal text.
\<close>

fun dumpSymbols_loop :: "SymbolTable \<Rightarrow> string list \<Rightarrow> error + (string \<times> 64 word) list" where
  "dumpSymbols_loop syms [] = Inr []"
| "dumpSymbols_loop syms (name # names) =
     (case lookup name syms of
        Inl e \<Rightarrow> Inl e
      | Inr a \<Rightarrow> (case dumpSymbols_loop syms names of Inl e \<Rightarrow> Inl e | Inr r \<Rightarrow> Inr ((name, a) # r)))"

definition dumpSymbols :: "SymbolTable \<Rightarrow> error + (string \<times> 64 word) list" where
  "dumpSymbols syms = dumpSymbols_loop syms (order syms)"

text \<open>
  \<open>assemble\<close>: the bytes on standard output, and either the exception that ended the run
  or the label lines written to the diagnostic channel.
\<close>

definition assemble :: "Token list \<Rightarrow> 8 word list \<times> (error + (string \<times> 64 word) list)" where
  "assemble tokens =
     (let lines = groupLines tokens
      in case pass1 lines of
           Inl e \<Rightarrow> ([], Inl e)
         | Inr syms \<Rightarrow>
             (case pass2 syms lines of
                (out, Some e) \<Rightarrow> (out, Inl e)
              | (out, None) \<Rightarrow> (out, dumpSymbols syms)))"

section \<open>Pseudocode front-ends\<close>

text \<open>
  The repository holds two front-ends for the pseudocode.  \<open>highlevel.h\<close> emits tokens
  directly; its functions carry the suffix \<open>_tok\<close> here.  The later one parses into the
  IR of \<open>ir.h\<close> (functions with the suffix \<open>_ir\<close>), which \<open>ir_codegen.h\<close> lowers to
  tokens (suffix \<open>_cg\<close>).  The helpers \<open>strip\<close>, \<open>split\<close>, \<open>isInteger\<close> and \<open>isReg\<close>
  are character for character the same in both parsers and are modelled once.

  A function that appends to its output parameter returns the tokens (or instructions)
  it appends.
\<close>

subsection \<open>Reading lines and words\<close>

text \<open>
  The lines that the loop \<open>while (std::getline(in, line))\<close> sees for the content of the
  stream: split at newline characters, with no final empty line.
\<close>

fun getlines_loop :: "string \<Rightarrow> string \<Rightarrow> string list" where
  "getlines_loop [] cur = (if cur = [] then [] else [cur])"
| "getlines_loop (c # cs) cur =
     (if c = CHR 0x0A then cur # getlines_loop cs [] else getlines_loop cs (cur @ [c]))"

definition getlines :: "string \<Rightarrow> string list" where
  "getlines s = getlines_loop s []"

definition strip :: "string \<Rightarrow> string" where
  "strip s = rev (dropWhile isspace (rev (dropWhile isspace s)))"

text \<open>\<open>split\<close>: the words that \<open>ss >> w\<close> extracts, with \<open>w\<close> the word being read.\<close>

fun split_loop :: "string \<Rightarrow> string \<Rightarrow> string list" where
  "split_loop [] w = (if w = [] then [] else [w])"
| "split_loop (c # cs) w =
     (if isspace c then (if w = [] then split_loop cs [] else w # split_loop cs [])
      else split_loop cs (w @ [c]))"

definition split_words :: "string \<Rightarrow> string list" where
  "split_words s = split_loop s []"

definition isInteger :: "string \<Rightarrow> bool" where
  "isInteger s =
     (if s = [] then False
      else (let st = (if s ! 0 = CHR ''-'' \<or> s ! 0 = CHR ''+'' then 1 else 0)
            in if st \<ge> length s then False else list_all isdigit (drop st s)))"

definition isReg :: "string \<Rightarrow> bool" where
  "isReg s =
     (if s = ''xzr'' \<or> s = ''sp'' then True
      else length s \<ge> 2 \<and> s ! 0 = CHR ''x'' \<and> isdigit (s ! 1))"

subsection \<open>The token-emitting parser (highlevel.h)\<close>

definition regToken_tok :: "string \<Rightarrow> error + Token" where
  "regToken_tok s =
     (if s = ''xzr'' then Inr (tok ZREG s)
      else if s = ''sp'' then Inr (tok ID s)
      else if length s \<ge> 2 \<and> s ! 0 = CHR ''x'' \<and> isdigit (s ! 1) then Inr (tok REG s)
      else Inl (RuntimeError (''Expected register, got: '' @ s)))"

definition immOrLabel_tok :: "string \<Rightarrow> error + Token" where
  "immOrLabel_tok s =
     (if s = [] then Inl (RuntimeError ''Empty immediate/label'')
      else if s ! 0 = CHR ''0'' \<and> length s > 2 \<and> (s ! 1 = CHR ''x'' \<or> s ! 1 = CHR ''X'')
      then Inr (tok HEXINT s)
      else if isInteger s then Inr (tok INT_tok s)
      else Inr (tok ID s))"

definition condSuffix_tok :: "string \<Rightarrow> error + string" where
  "condSuffix_tok opr =
     (if opr = ''=='' then Inr ''.eq''
      else if opr = ''!='' then Inr ''.ne''
      else if opr = ''<'' then Inr ''.lt''
      else if opr = ''<='' then Inr ''.le''
      else if opr = ''>'' then Inr ''.gt''
      else if opr = ''>='' then Inr ''.ge''
      else Inl (RuntimeError (''Unknown comparison operator: '' @ opr)))"

definition emitInstr :: "string \<Rightarrow> string \<Rightarrow> string \<Rightarrow> string \<Rightarrow> error + Token list" where
  "emitInstr instr a b c =
     bindE (regToken_tok a) (\<lambda>ta. bindE (regToken_tok b) (\<lambda>tb. bindE (regToken_tok c) (\<lambda>tc.
       Inr [tok ID instr, ta, tok COMMA '','', tb, tok COMMA '','', tc])))"

definition parseArith :: "string \<Rightarrow> string \<Rightarrow> string \<Rightarrow> string \<Rightarrow> error + Token list" where
  "parseArith dst lhs opr rhs =
     (if opr = ''+'' then emitInstr ''add'' dst lhs rhs
      else if opr = ''-'' then emitInstr ''sub'' dst lhs rhs
      else if opr = ''*'' then emitInstr ''mul'' dst lhs rhs
      else if opr = ''/'' then emitInstr ''sdiv'' dst lhs rhs
      else if opr = ''%'' then
        bindE (emitInstr ''sdiv'' dst lhs rhs) (\<lambda>t1.
        bindE (emitInstr ''mul'' dst dst rhs) (\<lambda>t2.
        bindE (emitInstr ''sub'' dst lhs dst) (\<lambda>t3.
          Inr (t1 @ [tok NEWLINE []] @ t2 @ [tok NEWLINE []] @ t3))))
      else Inl (RuntimeError (''Unknown operator: '' @ opr)))"

text \<open>
  \<open>parseLoad\<close>: \<open>rhs[0]\<close> starts with \<open>*\<close> at the only call.  \<open>substr(1)\<close> of an empty
  string throws; \<open>front()\<close> and \<open>back()\<close> of an empty string are undefined.
\<close>

definition parseLoad_tok :: "string \<Rightarrow> string list \<Rightarrow> error + Token list" where
  "parseLoad_tok dest rhs =
     (if rhs = [] then Inl (UndefinedBehaviour ''rhs[0] of an empty vector'')
      else if rhs ! 0 = [] then Inl (OutOfRange ''basic_string::substr'')
      else
        (let first = drop 1 (rhs ! 0)
         in bindE
             (if first = [] \<or> first ! 0 = CHR ''('' then
                (let combined = first @ concat (map (\<lambda>w. '' '' @ w) (drop 1 rhs))
                 in if combined = [] then Inl (UndefinedBehaviour ''front() on an empty string'')
                    else
                      (let c1 = (if hd combined = CHR ''('' then drop 1 combined else combined)
                       in if c1 = [] then Inl (UndefinedBehaviour ''back() on an empty string'')
                          else
                            (let c2 = (if last c1 = CHR '')'' then butlast c1 else c1);
                                 parts = split_words c2
                             in if length parts = 1 then Inr (parts ! 0, ''0'')
                                else if length parts = 3 \<and> parts ! 1 = ''+''
                                then Inr (parts ! 0, parts ! 2)
                                else Inl (RuntimeError ''Bad load syntax''))))
              else Inr (first, ''0''))
             (\<lambda>(base, offset).
                bindE (regToken_tok dest) (\<lambda>t1. bindE (regToken_tok base) (\<lambda>t2.
                  Inr [tok ID ''ldur'', t1, tok COMMA '','', tok LBRACK ''['', t2,
                       tok COMMA '','', tok INT_tok offset, tok RBRACK '']''])))))"

text \<open>\<open>lhs\<close> of \<open>parseStore\<close>: the words before \<open>=\<close>, joined by single spaces.\<close>

fun join_words :: "string list \<Rightarrow> string" where
  "join_words [] = []"
| "join_words [w] = w"
| "join_words (w # ws) = w @ '' '' @ join_words ws"

definition parseStore_tok :: "string list \<Rightarrow> nat \<Rightarrow> error + Token list" where
  "parseStore_tok words eqIdx =
     (let lhs0 = join_words (take eqIdx words)
      in if eqIdx + 1 \<ge> length words then Inl (RuntimeError ''Missing value in store'')
         else
           (let val = words ! (eqIdx + 1)
            in if lhs0 = [] then Inl (OutOfRange ''basic_string::substr'')
               else
                 (let lhs = drop 1 lhs0
                  in bindE
                      (if lhs = [] \<or> lhs ! 0 = CHR ''('' then
                         (if lhs = [] then Inl (UndefinedBehaviour ''front() on an empty string'')
                          else
                            (let l1 = (if hd lhs = CHR ''('' then drop 1 lhs else lhs)
                             in if l1 = [] then Inl (UndefinedBehaviour ''back() on an empty string'')
                                else
                                  (let l2 = (if last l1 = CHR '')'' then butlast l1 else l1);
                                       parts = split_words l2
                                   in if length parts = 1 then Inr (parts ! 0, ''0'')
                                      else if length parts = 3 \<and> parts ! 1 = ''+''
                                      then Inr (parts ! 0, parts ! 2)
                                      else Inl (RuntimeError ''Bad store syntax''))))
                       else Inr (lhs, ''0''))
                      (\<lambda>(base, offset).
                         bindE (regToken_tok val) (\<lambda>t1. bindE (regToken_tok base) (\<lambda>t2.
                           Inr [tok ID ''stur'', t1, tok COMMA '','', tok LBRACK ''['', t2,
                                tok COMMA '','', tok INT_tok offset, tok RBRACK '']'']))))))"

text \<open>
  \<open>parseLine\<close>.  \<open>eqIdx\<close> is the index of the first word \<open>=\<close> (\<open>std::find\<close>), the number
  of words when there is none.
\<close>

definition parseLine_tok :: "string \<Rightarrow> error + Token list" where
  "parseLine_tok line =
     (let words = split_words line
      in if words = [] then Inr []
         else if words ! 0 = ''label'' then
           (if length words < 2 then Inl (RuntimeError ''label requires a name'')
            else Inr [tok LABEL (words ! 1 @ '':'')])
         else if words ! 0 = ''goto'' then
           (if length words < 2 then Inl (RuntimeError ''goto requires a label'')
            else bindE (immOrLabel_tok (words ! 1)) (\<lambda>t. Inr [tok ID ''b'', t]))
         else if words ! 0 = ''call'' then
           (if length words < 2 then Inl (RuntimeError ''call requires a register'')
            else bindE (regToken_tok (words ! 1)) (\<lambda>t. Inr [tok ID ''blr'', t]))
         else if words ! 0 = ''ret'' then Inr [tok ID ''br'', tok REG ''x30'']
         else if words ! 0 = ''.8byte'' then
           (if length words < 2 then Inl (RuntimeError ''.8byte requires a value'')
            else bindE (immOrLabel_tok (words ! 1)) (\<lambda>t. Inr [tok DOTID ''.8byte'', t]))
         else if words ! 0 = ''if'' then
           (if length words < 6 \<or> words ! 4 \<noteq> ''goto''
            then Inl (RuntimeError ''Syntax: if <reg> <op> <reg> goto <label>'')
            else
              (let rn = words ! 1; opr = words ! 2; rm = words ! 3; lbl = words ! 5
               in bindE (regToken_tok rn) (\<lambda>t1. bindE (regToken_tok rm) (\<lambda>t2.
                  bindE (condSuffix_tok opr) (\<lambda>cs. bindE (immOrLabel_tok lbl) (\<lambda>t3.
                    Inr [tok ID ''cmp'', t1, tok COMMA '','', t2, tok NEWLINE [],
                         tok ID ''b'', tok DOTID cs, t3]))))))
         else
           (let eqIdx = length (takeWhile (\<lambda>w. w \<noteq> ''='') words)
            in if eqIdx = length words then Inl (RuntimeError (''Unrecognized statement: '' @ line))
               else if char_at (words ! 0) 0 = CHR ''*'' then parseStore_tok words eqIdx
               else if eqIdx \<noteq> 1 then
                 Inl (RuntimeError (''Expected '' @ [CHR 0x27] @ ''register = ...'' @ [CHR 0x27] @ '': ''
                        @ line))
               else
                 (let dest = words ! 0; rhs = drop 2 words
                  in if rhs \<noteq> [] \<and> char_at (rhs ! 0) 0 = CHR ''*'' then parseLoad_tok dest rhs
                     else if length rhs = 3 \<and> isReg (rhs ! 0) \<and> isReg (rhs ! 2)
                     then parseArith dest (rhs ! 0) (rhs ! 1) (rhs ! 2)
                     else if length rhs = 1 \<and> isReg (rhs ! 0) then
                       bindE (regToken_tok dest) (\<lambda>t1. bindE (regToken_tok (rhs ! 0)) (\<lambda>t2.
                         Inr [tok ID ''add'', t1, tok COMMA '','', t2, tok COMMA '','',
                              tok ZREG ''xzr'']))
                     else Inl (RuntimeError (''Unrecognized assignment: '' @ line)))))"

text \<open>The loop of \<open>parse\<close> over the lines read.\<close>

fun parse_lines_tok :: "string list \<Rightarrow> error + Token list" where
  "parse_lines_tok [] = Inr []"
| "parse_lines_tok (l # ls) =
     (if strip l = [] \<or> char_at (strip l) 0 = CHR ''#'' then
        (case parse_lines_tok ls of Inl e \<Rightarrow> Inl e | Inr r \<Rightarrow> Inr (tok NEWLINE [] # r))
      else
        (case parseLine_tok (strip l) of
           Inl e \<Rightarrow> Inl e
         | Inr ts \<Rightarrow>
             (case parse_lines_tok ls of
                Inl e \<Rightarrow> Inl e
              | Inr r \<Rightarrow> Inr (ts @ tok NEWLINE [] # r))))"

definition parse_tok :: "string \<Rightarrow> error + Token list" where
  "parse_tok input = parse_lines_tok (getlines input)"

subsection \<open>The IR (ir.h)\<close>

text \<open>
  The enumerators of \<open>IRInstruction::Op\<close> carry the prefix \<open>IR_\<close> and the fields of
  \<open>IRInstruction\<close> the prefix \<open>ir_\<close>.  \<open>mkIR\<close> is the aggregate initialisation
  \<open>{op, dst, src1, src2, label, cond, imm}\<close>.
\<close>

datatype Op =
    IR_ADD | IR_SUB | IR_MUL | IR_DIV | IR_MOD | IR_MOV | IR_LOAD | IR_STORE
  | IR_CMP_BRANCH | IR_BRANCH | IR_CALL | IR_RET | IR_LABEL | IR_DATA8

record IRInstruction =
  ir_op :: Op
  ir_dst :: string
  ir_src1 :: string
  ir_src2 :: string
  ir_label :: string
  ir_cond :: string
  ir_imm :: string

definition mkIR :: "Op \<Rightarrow> string \<Rightarrow> string \<Rightarrow> string \<Rightarrow> string \<Rightarrow> string \<Rightarrow> string \<Rightarrow> IRInstruction" where
  "mkIR opc d s1 s2 l c i =
     \<lparr>ir_op = opc, ir_dst = d, ir_src1 = s1, ir_src2 = s2, ir_label = l, ir_cond = c, ir_imm = i\<rparr>"

subsection \<open>The IR-producing parser\<close>

definition parseLoad_ir :: "string \<Rightarrow> string list \<Rightarrow> error + IRInstruction list" where
  "parseLoad_ir dest rhs =
     (if rhs = [] then Inl (UndefinedBehaviour ''rhs[0] of an empty vector'')
      else if rhs ! 0 = [] then Inl (OutOfRange ''basic_string::substr'')
      else
        (let first = drop 1 (rhs ! 0)
         in bindE
             (if first = [] \<or> first ! 0 = CHR ''('' then
                (let combined = first @ concat (map (\<lambda>w. '' '' @ w) (drop 1 rhs))
                 in if combined = [] then Inl (UndefinedBehaviour ''front() on an empty string'')
                    else
                      (let c1 = (if hd combined = CHR ''('' then drop 1 combined else combined)
                       in if c1 = [] then Inl (UndefinedBehaviour ''back() on an empty string'')
                          else
                            (let c2 = (if last c1 = CHR '')'' then butlast c1 else c1);
                                 parts = split_words c2
                             in if length parts = 1 then Inr (parts ! 0, ''0'')
                                else if length parts = 3 \<and> parts ! 1 = ''+''
                                then Inr (parts ! 0, parts ! 2)
                                else Inl (RuntimeError ''Bad load syntax''))))
              else Inr (first, ''0''))
             (\<lambda>(base, offset). Inr [mkIR IR_LOAD dest base [] [] [] offset])))"

definition parseStore_ir :: "string list \<Rightarrow> nat \<Rightarrow> error + IRInstruction list" where
  "parseStore_ir words eqIdx =
     (let lhs0 = join_words (take eqIdx words)
      in if eqIdx + 1 \<ge> length words then Inl (RuntimeError ''Missing value in store'')
         else
           (let val = words ! (eqIdx + 1)
            in if lhs0 = [] then Inl (OutOfRange ''basic_string::substr'')
               else
                 (let lhs = drop 1 lhs0
                  in bindE
                      (if lhs = [] \<or> lhs ! 0 = CHR ''('' then
                         (if lhs = [] then Inl (UndefinedBehaviour ''front() on an empty string'')
                          else
                            (let l1 = (if hd lhs = CHR ''('' then drop 1 lhs else lhs)
                             in if l1 = [] then Inl (UndefinedBehaviour ''back() on an empty string'')
                                else
                                  (let l2 = (if last l1 = CHR '')'' then butlast l1 else l1);
                                       parts = split_words l2
                                   in if length parts = 1 then Inr (parts ! 0, ''0'')
                                      else if length parts = 3 \<and> parts ! 1 = ''+''
                                      then Inr (parts ! 0, parts ! 2)
                                      else Inl (RuntimeError ''Bad store syntax''))))
                       else Inr (lhs, ''0''))
                      (\<lambda>(base, offset). Inr [mkIR IR_STORE base val [] [] [] offset]))))"

definition parseLine_ir :: "string \<Rightarrow> error + IRInstruction list" where
  "parseLine_ir line =
     (let words = split_words line
      in if words = [] then Inr []
         else if words ! 0 = ''label'' then
           (if length words < 2 then Inl (RuntimeError ''label requires a name'')
            else Inr [mkIR IR_LABEL (words ! 1) [] [] [] [] []])
         else if words ! 0 = ''goto'' then
           (if length words < 2 then Inl (RuntimeError ''goto requires a label'')
            else Inr [mkIR IR_BRANCH [] [] [] (words ! 1) [] []])
         else if words ! 0 = ''call'' then
           (if length words < 2 then Inl (RuntimeError ''call requires a register'')
            else Inr [mkIR IR_CALL [] (words ! 1) [] [] [] []])
         else if words ! 0 = ''ret'' then Inr [mkIR IR_RET [] [] [] [] [] []]
         else if words ! 0 = ''.8byte'' then
           (if length words < 2 then Inl (RuntimeError ''.8byte requires a value'')
            else Inr [mkIR IR_DATA8 [] [] [] [] [] (words ! 1)])
         else if words ! 0 = ''if'' then
           (if length words < 6 \<or> words ! 4 \<noteq> ''goto''
            then Inl (RuntimeError ''Syntax: if <reg> <op> <reg> goto <label>'')
            else Inr [mkIR IR_CMP_BRANCH [] (words ! 1) (words ! 3) (words ! 5) (words ! 2) []])
         else
           (let eqIdx = length (takeWhile (\<lambda>w. w \<noteq> ''='') words)
            in if eqIdx = length words then Inl (RuntimeError (''Unrecognized statement: '' @ line))
               else if char_at (words ! 0) 0 = CHR ''*'' then parseStore_ir words eqIdx
               else if eqIdx \<noteq> 1 then
                 Inl (RuntimeError (''Expected '' @ [CHR 0x27] @ ''register = ...'' @ [CHR 0x27] @ '': ''
                        @ line))
               else
                 (let dest = words ! 0; rhs = drop 2 words
                  in if rhs \<noteq> [] \<and> char_at (rhs ! 0) 0 = CHR ''*'' then parseLoad_ir dest rhs
                     else if length rhs = 3 \<and> isReg (rhs ! 0) \<and> isReg (rhs ! 2) then
                       bindE (if rhs ! 1 = ''+'' then Inr IR_ADD
                              else if rhs ! 1 = ''-'' then Inr IR_SUB
                              else if rhs ! 1 = ''*'' then Inr IR_MUL
                              else if rhs ! 1 = ''/'' then Inr IR_DIV
                              else if rhs ! 1 = ''%'' then Inr IR_MOD
                              else Inl (RuntimeError (''Unknown operator: '' @ rhs ! 1)))
                         (\<lambda>opc. Inr [mkIR opc dest (rhs ! 0) (rhs ! 2) [] [] []])
                     else if length rhs = 1 \<and> isReg (rhs ! 0) then
                       Inr [mkIR IR_MOV dest (rhs ! 0) [] [] [] []]
                     else Inl (RuntimeError (''Unrecognized assignment: '' @ line)))))"

fun parse_lines_ir :: "string list \<Rightarrow> error + IRInstruction list" where
  "parse_lines_ir [] = Inr []"
| "parse_lines_ir (l # ls) =
     (if strip l = [] \<or> char_at (strip l) 0 = CHR ''#'' then parse_lines_ir ls
      else
        (case parseLine_ir (strip l) of
           Inl e \<Rightarrow> Inl e
         | Inr is \<Rightarrow>
             (case parse_lines_ir ls of Inl e \<Rightarrow> Inl e | Inr r \<Rightarrow> Inr (is @ r))))"

definition parse_ir :: "string \<Rightarrow> error + IRInstruction list" where
  "parse_ir input = parse_lines_ir (getlines input)"

subsection \<open>IRCodeGen (ir\_codegen.h)\<close>

definition regToken_cg :: "string \<Rightarrow> error + Token" where
  "regToken_cg s =
     (if s = ''xzr'' then Inr (tok ZREG s)
      else if s = ''sp'' then Inr (tok ID s)
      else if length s \<ge> 2 \<and> s ! 0 = CHR ''x'' \<and> isdigit (s ! 1) then Inr (tok REG s)
      else Inl (RuntimeError (''IRCodeGen: expected register, got: '' @ s)))"

text \<open>
  \<open>immOrLabel\<close> of the code generator tests for an integer with a loop of its own:
  \<open>isInt\<close> is false when no character follows the sign, and when some character from
  \<open>st\<close> on is no digit.
\<close>

definition immOrLabel_cg :: "string \<Rightarrow> error + Token" where
  "immOrLabel_cg s =
     (if s = [] then Inl (RuntimeError ''IRCodeGen: empty immediate/label'')
      else if s ! 0 = CHR ''0'' \<and> length s > 2 \<and> (s ! 1 = CHR ''x'' \<or> s ! 1 = CHR ''X'')
      then Inr (tok HEXINT s)
      else
        (let st = (if s ! 0 = CHR ''-'' \<or> s ! 0 = CHR ''+'' then 1 else 0);
             isInt = (if st \<ge> length s then False
                      else \<not> list_ex (\<lambda>c. \<not> isdigit c) (drop st s))
         in if isInt then Inr (tok INT_tok s) else Inr (tok ID s)))"

definition condSuffix_cg :: "string \<Rightarrow> error + string" where
  "condSuffix_cg c =
     (case map_of [(''=='', ''.eq''), (''!='', ''.ne''),
                   (''<'', ''.lt''), (''<='', ''.le''),
                   (''>'', ''.gt''), (''>='', ''.ge'')] c of
        None \<Rightarrow> Inl (RuntimeError (''IRCodeGen: unknown condition: '' @ c))
      | Some v \<Rightarrow> Inr v)"

definition emit3Reg :: "string \<Rightarrow> string \<Rightarrow> string \<Rightarrow> string \<Rightarrow> error + Token list" where
  "emit3Reg instr a b c =
     bindE (regToken_cg a) (\<lambda>ta. bindE (regToken_cg b) (\<lambda>tb. bindE (regToken_cg c) (\<lambda>tc.
       Inr [tok ID instr, ta, tok COMMA '','', tb, tok COMMA '','', tc])))"

definition lowerOne :: "IRInstruction \<Rightarrow> error + Token list" where
  "lowerOne inst =
     (case ir_op inst of
        IR_LABEL \<Rightarrow> Inr [tok LABEL (ir_dst inst @ '':'')]
      | IR_ADD \<Rightarrow> emit3Reg ''add'' (ir_dst inst) (ir_src1 inst) (ir_src2 inst)
      | IR_SUB \<Rightarrow> emit3Reg ''sub'' (ir_dst inst) (ir_src1 inst) (ir_src2 inst)
      | IR_MUL \<Rightarrow> emit3Reg ''mul'' (ir_dst inst) (ir_src1 inst) (ir_src2 inst)
      | IR_DIV \<Rightarrow> emit3Reg ''sdiv'' (ir_dst inst) (ir_src1 inst) (ir_src2 inst)
      | IR_MOD \<Rightarrow>
          bindE (emit3Reg ''sdiv'' (ir_dst inst) (ir_src1 inst) (ir_src2 inst)) (\<lambda>t1.
          bindE (emit3Reg ''mul'' (ir_dst inst) (ir_dst inst) (ir_src2 inst)) (\<lambda>t2.
          bindE (emit3Reg ''sub'' (ir_dst inst) (ir_src1 inst) (ir_dst inst)) (\<lambda>t3.
            Inr (t1 @ [tok NEWLINE []] @ t2 @ [tok NEWLINE []] @ t3))))
      | IR_MOV \<Rightarrow> emit3Reg ''add'' (ir_dst inst) (ir_src1 inst) ''xzr''
      | IR_LOAD \<Rightarrow>
          bindE (regToken_cg (ir_dst inst)) (\<lambda>t1. bindE (regToken_cg (ir_src1 inst)) (\<lambda>t2.
            Inr [tok ID ''ldur'', t1, tok COMMA '','', tok LBRACK ''['', t2,
                 tok COMMA '','', tok INT_tok (ir_imm inst), tok RBRACK '']'']))
      | IR_STORE \<Rightarrow>
          bindE (regToken_cg (ir_src1 inst)) (\<lambda>t1. bindE (regToken_cg (ir_dst inst)) (\<lambda>t2.
            Inr [tok ID ''stur'', t1, tok COMMA '','', tok LBRACK ''['', t2,
                 tok COMMA '','', tok INT_tok (ir_imm inst), tok RBRACK '']'']))
      | IR_CMP_BRANCH \<Rightarrow>
          bindE (regToken_cg (ir_src1 inst)) (\<lambda>t1. bindE (regToken_cg (ir_src2 inst)) (\<lambda>t2.
          bindE (condSuffix_cg (ir_cond inst)) (\<lambda>cs. bindE (immOrLabel_cg (ir_label inst)) (\<lambda>t3.
            Inr [tok ID ''cmp'', t1, tok COMMA '','', t2, tok NEWLINE [],
                 tok ID ''b'', tok DOTID cs, t3]))))
      | IR_BRANCH \<Rightarrow> bindE (immOrLabel_cg (ir_label inst)) (\<lambda>t. Inr [tok ID ''b'', t])
      | IR_CALL \<Rightarrow> bindE (regToken_cg (ir_src1 inst)) (\<lambda>t. Inr [tok ID ''blr'', t])
      | IR_RET \<Rightarrow> Inr [tok ID ''br'', tok REG ''x30'']
      | IR_DATA8 \<Rightarrow> bindE (immOrLabel_cg (ir_imm inst)) (\<lambda>t. Inr [tok DOTID ''.8byte'', t]))"

fun lower :: "IRInstruction list \<Rightarrow> error + Token list" where
  "lower [] = Inr []"
| "lower (inst # rest) =
     (case lowerOne inst of
        Inl e \<Rightarrow> Inl e
      | Inr ts \<Rightarrow> (case lower rest of Inl e \<Rightarrow> Inl e | Inr r \<Rightarrow> Inr (ts @ tok NEWLINE [] # r)))"

subsection \<open>The two pipelines of \<open>--high\<close> (the two versions of main.cpp)\<close>

definition high_tok :: "string \<Rightarrow> 8 word list \<times> (error + (string \<times> 64 word) list)" where
  "high_tok input =
     (case parse_tok input of Inl e \<Rightarrow> ([], Inl e) | Inr tokens \<Rightarrow> assemble tokens)"

definition high_ir :: "string \<Rightarrow> 8 word list \<times> (error + (string \<times> 64 word) list)" where
  "high_ir input =
     (case bindE (parse_ir input) lower of Inl e \<Rightarrow> ([], Inl e) | Inr tokens \<Rightarrow> assemble tokens)"

section \<open>Auxiliary notions used to state the properties\<close>

text \<open>
  A sequence of calls of \<open>define\<close> on one table, by a caller that goes on after an
  exception: each call leaves the table as \<open>define_sym\<close> says.
\<close>

definition define_seq :: "(string \<times> 64 word) list \<Rightarrow> SymbolTable \<Rightarrow> SymbolTable" where
  "define_seq ops st = foldl (\<lambda>s (n, a). snd (define_sym n a s)) st ops"

text \<open>The names of a list in the order of their first occurrence, given those already seen.\<close>

fun first_defs :: "string list \<Rightarrow> string list \<Rightarrow> string list" where
  "first_defs seen [] = []"
| "first_defs seen (n # ns) =
     (if n \<in> set seen then first_defs seen ns else n # first_defs (seen @ [n]) ns)"

text \<open>
  The three kinds of statement, by the tests of \<open>pass1\<close>, and the number of bytes by
  which a statement of each kind advances the PC; \<open>pc_sum\<close> is the PC after a list of
  statements when it starts at 0.
\<close>

definition is_label_line :: "Token list \<Rightarrow> bool" where
  "is_label_line line = (length line = 1 \<and> type (line ! 0) = LABEL)"

definition is_data8_line :: "Token list \<Rightarrow> bool" where
  "is_data8_line line = (line \<noteq> [] \<and> type (line ! 0) = DOTID \<and> lexeme (line ! 0) = ''.8byte'')"

definition stmt_size :: "Token list \<Rightarrow> 64 word" where
  "stmt_size line = (if is_label_line line then 0 else if is_data8_line line then 8 else 4)"

definition pc_sum :: "Token list list \<Rightarrow> 64 word" where
  "pc_sum lines = sum_list (map stmt_size lines)"

text \<open>
  A family of programs used to reach large addresses: a first statement, \<open>n\<close>
  statements \<open>.8byte 0\<close>, and a last statement, each closed by a \<open>NEWLINE\<close> token.
\<close>

definition data8_zero :: "Token list" where
  "data8_zero = [tok DOTID ''.8byte'', tok INT_tok ''0'']"

text \<open>
  The immediate that a processor reads from an instruction word: the field of \<open>width\<close>
  bits from bit \<open>lo\<close>, sign-extended.
\<close>

definition imm_field :: "nat \<Rightarrow> nat \<Rightarrow> 32 word \<Rightarrow> int" where
  "imm_field lo width w = signed_take_bit (width - 1) (uint (take_bit width (drop_bit lo w)))"

definition padded_program :: "Token list \<Rightarrow> nat \<Rightarrow> Token list \<Rightarrow> Token list" where
  "padded_program first n last_stmt =
     first @ [tok NEWLINE []] @ concat (replicate n (data8_zero @ [tok NEWLINE []]))
       @ last_stmt @ [tok NEWLINE []]"

text \<open>
  To compare the two front-ends: the outcome of a computation without the exception's
  text; the tokens that \<open>lowerOne\<close> gives for the instructions of one pseudocode line
  (there is at most one); two token sequences that \<open>groupLines\<close> cannot tell apart when
  it reads them at the start of a statement, that end at the start of a statement and
  that differ in \<open>NEWLINE\<close> tokens only; and what it means for two front-end results to
  agree: both are exceptions, or both are token streams with the same tokens apart from
  \<open>NEWLINE\<close>, the same statements and the same output of \<open>assemble\<close>.
\<close>

definition noerr :: "error + 'a \<Rightarrow> 'a option" where
  "noerr r = (case r of Inl _ \<Rightarrow> None | Inr x \<Rightarrow> Some x)"

definition lower_line :: "IRInstruction list \<Rightarrow> Token list option" where
  "lower_line irs = (case irs of [] \<Rightarrow> Some [] | [i] \<Rightarrow> noerr (lowerOne i) | _ \<Rightarrow> None)"

definition blockeq :: "Token list \<Rightarrow> Token list \<Rightarrow> bool" where
  "blockeq x y =
     ((\<forall>lines. foldl groupLines_step ([], lines) x = foldl groupLines_step ([], lines) y
         \<and> fst (foldl groupLines_step ([], lines) x) = [])
      \<and> filter (\<lambda>t. type t \<noteq> NEWLINE) x = filter (\<lambda>t. type t \<noteq> NEWLINE) y)"

definition front_ends_agree :: "error + Token list \<Rightarrow> error + Token list \<Rightarrow> bool" where
  "front_ends_agree r1 r2 =
     (case r1 of
        Inl _ \<Rightarrow> isl r2
      | Inr ts \<Rightarrow>
          (case r2 of
             Inl _ \<Rightarrow> False
           | Inr ts' \<Rightarrow>
               filter (\<lambda>t. type t \<noteq> NEWLINE) ts = filter (\<lambda>t. type t \<noteq> NEWLINE) ts'
               \<and> groupLines ts = groupLines ts' \<and> assemble ts = assemble ts'))"

section \<open>Results of computations that may throw\<close>

lemma bindE_eq_Inr: "bindE m f = Inr y \<longleftrightarrow> (\<exists>x. m = Inr x \<and> f x = Inr y)"
  by (cases m) simp_all

section \<open>The symbol table\<close>

lemma define_seq_table:
  "sym_table (define_seq ops st) name =
     (case sym_table st name of Some a \<Rightarrow> Some a | None \<Rightarrow> map_of ops name)"
proof (induction ops arbitrary: st)
  case Nil
  then show ?case by (simp add: define_seq_def split: option.splits)
next
  case (Cons x ops)
  obtain n a where x: "x = (n, a)" by (cases x)
  have step: "define_seq (x # ops) st = define_seq ops (snd (define_sym n a st))"
    by (simp add: define_seq_def x)
  show ?case
    unfolding step Cons.IH
    by (simp add: define_sym_def x split: option.splits)
qed

lemma define_seq_order:
  "set (sym_order st) = dom (sym_table st) \<Longrightarrow>
   sym_order (define_seq ops st) = sym_order st @ first_defs (sym_order st) (map fst ops)"
proof (induction ops arbitrary: st)
  case Nil
  then show ?case by (simp add: define_seq_def)
next
  case (Cons x ops)
  obtain n a where x: "x = (n, a)" by (cases x)
  let ?st' = "snd (define_sym n a st)"
  have step: "define_seq (x # ops) st = define_seq ops ?st'"
    by (simp add: define_seq_def x)
  have inv: "set (sym_order ?st') = dom (sym_table ?st')"
    using Cons.prems by (auto simp: define_sym_def)
  have mem: "n \<in> set (sym_order st) \<longleftrightarrow> sym_table st n \<noteq> None"
    using Cons.prems by (auto simp: dom_def)
  show ?case
    unfolding step Cons.IH [OF inv]
    using mem by (simp add: define_sym_def x)
qed

text \<open>
  Claim C8.  \<open>define(name, address)\<close> throws "Duplicate label" exactly when the name is
  already in the table, and then leaves the map and the order list as they were;
  otherwise it adds the name to both.  After any sequence of calls of \<open>define\<close> on an
  empty table, \<open>lookup(name)\<close> returns the address of the first definition of the name and
  throws "Undefined label" exactly when the name was never defined, and \<open>order()\<close> lists
  the names in the order of their first definition.
\<close>

theorem symbol_table_contract:
  "(fst (define_sym name a st) = Some (RuntimeError (''Duplicate label: '' @ name)) \<longleftrightarrow> contains name st)
   \<and> (fst (define_sym name a st) = None \<longleftrightarrow> \<not> contains name st)
   \<and> (contains name st \<longrightarrow> snd (define_sym name a st) = st)
   \<and> (\<not> contains name st \<longrightarrow>
        sym_table (snd (define_sym name a st)) = (sym_table st)(name \<mapsto> a)
        \<and> order (snd (define_sym name a st)) = order st @ [name])
   \<and> lookup name (define_seq ops empty_symbols) =
        (case map_of ops name of
           Some v \<Rightarrow> Inr v
         | None \<Rightarrow> Inl (RuntimeError (''Undefined label: '' @ name)))
   \<and> order (define_seq ops empty_symbols) = first_defs [] (map fst ops)"
proof -
  have l: "lookup name (define_seq ops empty_symbols) =
        (case map_of ops name of
           Some v \<Rightarrow> Inr v
         | None \<Rightarrow> Inl (RuntimeError (''Undefined label: '' @ name)))"
    by (simp add: lookup_def define_seq_table empty_symbols_def split: option.splits)
  have o: "order (define_seq ops empty_symbols) = first_defs [] (map fst ops)"
    using define_seq_order [of empty_symbols ops] by (simp add: order_def empty_symbols_def)
  show ?thesis
    using l o by (simp add: define_sym_def contains_def order_def)
qed

theorem symbol_table_contract_witness:
  "contains ''a'' (define_seq [(''a'', 0), (''b'', 4)] empty_symbols)
   \<and> \<not> contains ''c'' (define_seq [(''a'', 0), (''b'', 4)] empty_symbols)
   \<and> fst (define_sym ''a'' 8 (define_seq [(''a'', 0), (''b'', 4)] empty_symbols))
        = Some (RuntimeError ''Duplicate label: a'')
   \<and> snd (define_sym ''a'' 8 (define_seq [(''a'', 0), (''b'', 4)] empty_symbols))
        = define_seq [(''a'', 0), (''b'', 4)] empty_symbols
   \<and> lookup ''a'' (define_seq [(''a'', 0), (''b'', 4), (''a'', 8)] empty_symbols) = Inr 0
   \<and> lookup ''c'' (define_seq [(''a'', 0), (''b'', 4), (''a'', 8)] empty_symbols)
        = Inl (RuntimeError ''Undefined label: c'')
   \<and> order (define_seq [(''a'', 0), (''b'', 4), (''a'', 8)] empty_symbols) = [''a'', ''b'']"
proof -
  have c1: "contains ''a'' (define_seq [(''a'', 0), (''b'', 4)] empty_symbols)"
    by (simp add: contains_def define_seq_def define_sym_def empty_symbols_def)
  have c2: "\<not> contains ''c'' (define_seq [(''a'', 0), (''b'', 4)] empty_symbols)"
    by (simp add: contains_def define_seq_def define_sym_def empty_symbols_def)
  show ?thesis
    using c1 c2
      symbol_table_contract [of "''a''" 8 "define_seq [(''a'', 0), (''b'', 4)] empty_symbols"
        "[(''a'', 0), (''b'', 4), (''a'', 8)]"]
      symbol_table_contract [of "''c''" 8 "define_seq [(''a'', 0), (''b'', 4)] empty_symbols"
        "[(''a'', 0), (''b'', 4), (''a'', 8)]"]
    by simp
qed

section \<open>Concrete runs\<close>

text \<open>
  Claim C1, as the code has it.  The pseudocode line \<open>x1 = x2 + x3\<close> is lowered to the
  statement \<open>add x1, x2, x3\<close>; with the base word \<open>0x8B206000\<close> of \<open>add\<close> the encoder
  yields the word \<open>0x8B236041\<close>, and both front-ends write the bytes \<open>41 60 23 8B\<close>.
\<close>

theorem single_add_bytes:
  "parse_tok ''x1 = x2 + x3'' =
     Inr [tok ID ''add'', tok REG ''x1'', tok COMMA '','', tok REG ''x2'', tok COMMA '','',
          tok REG ''x3'', tok NEWLINE []]
   \<and> encode ''add'' 1 2 3 = Inr 0x8B236041
   \<and> emit32le 0x8B236041 = [0x41, 0x60, 0x23, 0x8B]
   \<and> high_tok ''x1 = x2 + x3'' = ([0x41, 0x60, 0x23, 0x8B], Inr [])
   \<and> high_ir ''x1 = x2 + x3'' = ([0x41, 0x60, 0x23, 0x8B], Inr [])"
  by code_simp

text \<open>
  Claim C1, as the specification states it, fails: the word is not \<open>0x8B230041\<close> and the
  bytes written are not \<open>41 00 23 8B\<close>.
\<close>

theorem single_add_not_8B230041:
  "encode ''add'' 1 2 3 \<noteq> Inr 0x8B230041
   \<and> fst (high_tok ''x1 = x2 + x3'') \<noteq> [0x41, 0x00, 0x23, 0x8B]"
  by code_simp

text \<open>
  Claim C6 at the string \<open>x5abc\<close>, which is neither \<open>xzr\<close>, \<open>sp\<close> nor \<open>x\<close> followed by a
  decimal numeral: \<open>readReg\<close> does not fail but returns 5, because \<open>std::stoi\<close> ignores
  what follows the digits.  Through the pseudocode front-end, \<open>x1abc = x2 + x3\<close>
  assembles to the bytes of \<open>add x1, x2, x3\<close>.
\<close>

theorem readReg_trailing_characters:
  "readReg ''x5abc'' = Inr 5
   \<and> high_tok ''x1abc = x2 + x3'' = ([0x41, 0x60, 0x23, 0x8B], Inr [])"
  by code_simp

text \<open>
  Claim C7 at the statement \<open>.8byte 010\<close>: the operand is an \<open>INT\<close> token without \<open>0x\<close>
  prefix, and the datum written is eight, not ten, because \<open>std::stoull\<close> with base 0
  reads a leading zero as octal.
\<close>

theorem data8_leading_zero_is_octal:
  "parse_tok ''.8byte 010'' = Inr [tok DOTID ''.8byte'', tok INT_tok ''010'', tok NEWLINE []]
   \<and> assemble [tok DOTID ''.8byte'', tok INT_tok ''010'', tok NEWLINE []]
       = (emit64le 8, Inr [])
   \<and> high_tok ''.8byte 010'' = ([8, 0, 0, 0, 0, 0, 0, 0], Inr [])
   \<and> readImm ''010'' = Inr 10"
  by code_simp

section \<open>The immediate window of \<open>ldur\<close> and \<open>stur\<close>\<close>

lemma validSignedImm_9: "validSignedImm v 9 \<longleftrightarrow> - 256 \<le> v \<and> v \<le> 255"
  by (simp add: validSignedImm_def)

lemma reg_high_bits:
  assumes "0 \<le> r" "r \<le> 31" "5 \<le> n"
  shows "\<not> bit (r :: int) n"
proof -
  have "r < 2 ^ 5" using assms by simp
  also have "(2::int) ^ 5 \<le> 2 ^ n" using assms by (intro power_increasing) simp_all
  finally have "r div 2 ^ n = 0" using assms by simp
  then show ?thesis by (simp add: bit_iff_odd)
qed

lemma imm9_field:
  fixes base :: "32 word"
  assumes "validRegister rt" "validRegister rn" "take_bit 9 (drop_bit 12 base) = 0"
  shows "take_bit 9 (drop_bit 12 (base OR word_of_int rt OR word_of_int (push_bit 5 rn)
            OR push_bit 12 ((word_of_int v :: 32 word) AND 0x1FF))) = take_bit 9 (word_of_int v)"
proof (rule bit_eqI)
  fix n
  assume "possible_bit TYPE(32 word) n"
  show "bit (take_bit 9 (drop_bit 12 (base OR word_of_int rt OR word_of_int (push_bit 5 rn)
            OR push_bit 12 ((word_of_int v :: 32 word) AND 0x1FF)))) n
        = bit (take_bit 9 (word_of_int v) :: 32 word) n"
  proof (cases "n < 9")
    case False
    then show ?thesis by (simp add: bit_simps)
  next
    case True
    then have n: "n \<in> {0, 1, 2, 3, 4, 5, 6, 7, 8}" by auto
    have a: "\<not> bit rt (12 + n)" "\<not> bit rn (7 + n)"
      using assms reg_high_bits [of rt "12 + n"] reg_high_bits [of rn "7 + n"]
      by (simp_all add: validRegister_def)
    have "bit (take_bit 9 (drop_bit 12 base)) n = False"
      using assms(3) by simp
    then have b: "\<not> bit base (12 + n)"
      using True by (simp add: bit_simps)
    have c: "bit (0x1FF :: 32 word) n"
      using n by auto
    have d: "bit (2093056 :: 32 word) (12 + n)"
      using n by auto
    show ?thesis
      using True a b c d by (simp add: bit_simps add.commute)
  qed
qed

lemma encodeMem_ok:
  assumes "validRegister rt" "validRegister rn"
  shows "encodeMem base rt rn v =
     (if - 256 \<le> v \<and> v \<le> 255
      then Inr (base OR word_of_int rt OR word_of_int (push_bit 5 rn)
                OR push_bit 12 ((word_of_int v :: 32 word) AND 0x1FF))
      else Inl (RuntimeError ''Immediate out of range for ldur/stur''))"
  using assms by (simp add: encodeMem_def requireReg_def validSignedImm_9)

lemma encode_ldur: "encode ''ldur'' a b c = encodeMem 0xF8400000 a b c"
  by (simp add: encode_def)

lemma encode_stur: "encode ''stur'' a b c = encodeMem 0xF8000000 a b c"
  by (simp add: encode_def)

lemma uint_low9: "uint (take_bit 9 (word_of_int v :: 32 word)) = v mod 512"
proof -
  have "uint (take_bit 9 (word_of_int v :: 32 word)) = take_bit 9 (uint (word_of_int v :: 32 word))"
    by (rule unsigned_take_bit_eq)
  also have "\<dots> = take_bit 9 (take_bit 32 v)"
    by (simp only: uint_word_of_int_eq) simp
  also have "\<dots> = take_bit 9 v"
    by (simp add: take_bit_take_bit)
  also have "\<dots> = v mod 512"
    by (simp add: take_bit_eq_mod)
  finally show ?thesis .
qed

text \<open>Every register number that \<open>readReg\<close> returns is valid for the encoder.\<close>

lemma readReg_valid:
  assumes "readReg s = Inr r"
  shows "validRegister (sint r)"
proof (cases "s = ''xzr'' \<or> s = ''sp''")
  case True
  then have "r = 31" using assms by (auto simp: readReg_def)
  then show ?thesis by (simp add: validRegister_def)
next
  case False
  then have "\<exists>v. 0 \<le> v \<and> v \<le> 30 \<and> r = word_of_int v"
    using assms by (auto simp: readReg_def bindE_eq_Inr not_less split: if_splits)
  then obtain v where v: "0 \<le> v" "v \<le> 30" "r = word_of_int v"
    by blast
  have "sint r = signed_take_bit 31 v"
    unfolding v(3) by (simp add: sint_sbintrunc')
  also have "\<dots> = v"
    using v(1,2) by (intro signed_take_bit_int_eq_self) simp_all
  finally show ?thesis
    using v by (simp add: validRegister_def)
qed

lemma low9_truncation: "(word_of_int v :: 32 word) AND 0x1FF = word_of_int (v mod 512)"
proof -
  have m: "(0x1FF :: 32 word) = mask 9"
    by (simp add: mask_eq_exp_minus_1)
  have "(word_of_int v :: 32 word) AND mask 9 = word_of_int (take_bit 9 v)"
    by (rule bit_eqI) (auto simp: bit_simps)
  then show ?thesis
    unfolding m by (simp add: take_bit_eq_mod)
qed

lemma shifted_register: "(word_of_int (push_bit 5 r) :: 32 word) = push_bit 5 (word_of_int r)"
  by (rule bit_eqI) (auto simp: bit_simps)

lemma mem_word_value:
  fixes base :: "32 word"
  assumes r: "validRegister rt" "validRegister rn"
    and b: "take_bit 21 base = 0" "uint base \<le> 2 ^ 32 - 2 ^ 21"
  shows "uint (base OR word_of_int rt OR push_bit 5 (word_of_int rn)
               OR push_bit 12 (word_of_int (v mod 512)))
         = uint base + rt + 32 * rn + 4096 * (v mod 512)"
proof -
  let ?f = "rt + 32 * rn + 4096 * (v mod 512)"
  have rng: "0 \<le> rt" "rt \<le> 31" "0 \<le> rn" "rn \<le> 31" "0 \<le> v mod 512" "v mod 512 < 512"
    using r by (simp_all add: validRegister_def)
  then have f: "0 \<le> ?f" "?f < 2 ^ 21"
    by simp_all
  have rtb: "\<not> bit rt n" if "5 \<le> n" for n
    using reg_high_bits [of rt n] rng that by simp
  have rnb: "\<not> bit rn n" if "5 \<le> n" for n
    using reg_high_bits [of rn n] rng that by simp
  have vb: "\<not> bit (v mod 512) n" if "9 \<le> n" for n
  proof -
    have "v mod 512 = take_bit 9 v" by (simp add: take_bit_eq_mod)
    then show ?thesis using that by (simp add: bit_take_bit_iff)
  qed
  have p5: "32 * rn = push_bit 5 rn" and p12: "4096 * (v mod 512) = push_bit 12 (v mod 512)"
    by (simp_all add: push_bit_eq_mult)
  have disj1: "rt + push_bit 5 rn = rt OR push_bit 5 rn"
    using rtb by (intro disjunctive_add) (auto simp: bit_simps)
  have disj2: "(rt OR push_bit 5 rn) + push_bit 12 (v mod 512)
      = (rt OR push_bit 5 rn) OR push_bit 12 (v mod 512)"
  proof (rule disjunctive_add)
    fix n
    show "\<not> bit (rt OR push_bit 5 rn) n \<or> \<not> bit (push_bit 12 (v mod 512)) n"
      using rtb [of n] rnb [of "n - 5"] by (cases "12 \<le> n") (auto simp: bit_simps)
  qed
  have fo: "?f = rt OR push_bit 5 rn OR push_bit 12 (v mod 512)"
    unfolding p5 p12 disj1 disj2 by (simp add: or.assoc)
  have w: "(word_of_int rt OR push_bit 5 (word_of_int rn) OR push_bit 12 (word_of_int (v mod 512)) :: 32 word)
        = word_of_int ?f"
    unfolding fo by (rule bit_eqI) (auto simp: bit_simps)
  have fb: "\<not> bit ?f n" if "21 \<le> n" for n
    unfolding fo using rtb [of n] rnb [of "n - 5"] vb [of "n - 12"] that by (auto simp: bit_simps)
  have "base + word_of_int ?f = base OR word_of_int ?f"
  proof (rule disjunctive_add)
    fix n
    have "\<not> bit base n" if "n < 21"
    proof -
      have "bit (take_bit 21 base) n = False" using b(1) by simp
      then show ?thesis using that by (simp add: bit_simps)
    qed
    moreover have "\<not> bit (word_of_int ?f :: 32 word) n" if "21 \<le> n"
      using fb [OF that] by (simp only: bit_word_of_int_iff) simp
    ultimately show "\<not> bit base n \<or> \<not> bit (word_of_int ?f :: 32 word) n"
      by (cases "n < 21") simp_all
  qed
  then have "uint (base OR word_of_int rt OR push_bit 5 (word_of_int rn)
               OR push_bit 12 (word_of_int (v mod 512))) = uint (base + word_of_int ?f)"
    using w by (simp add: or.assoc)
  also have "\<dots> = (uint base + uint (word_of_int ?f :: 32 word)) mod 2 ^ 32"
    by (simp add: uint_word_ariths)
  also have "uint (word_of_int ?f :: 32 word) = ?f"
  proof -
    define g where "g = ?f"
    have "uint (word_of_int g :: 32 word) = take_bit 32 g"
      by (simp only: uint_word_of_int_eq) simp
    also have "\<dots> = g"
      using f unfolding g_def [symmetric] by (simp add: take_bit_eq_mod)
    finally show ?thesis unfolding g_def .
  qed
  also have "(uint base + ?f) mod 2 ^ 32 = uint base + ?f"
    using f b(2) by (intro mod_pos_pos_trivial) simp_all
  finally show ?thesis by simp
qed

text \<open>
  Claim C4.  For \<open>ldur\<close> and \<open>stur\<close> with valid register numbers (pass 2 passes
  the results of \<open>readReg\<close>, which are valid), \<open>encode\<close> succeeds exactly when the
  immediate \<open>v\<close> satisfies \<open>-256 \<le> v \<le> 255\<close>; outside the window, and in particular at
  \<open>-257\<close> and \<open>256\<close>, it throws "Immediate out of range for ldur/stur".  The word of a
  successful encoding is the base word plus \<open>Rt\<close>, plus \<open>Rn\<close> shifted by 5, plus \<open>v\<close>
  modulo \<open>2^9\<close> shifted by 12: a negative immediate contributes the low nine bits of its
  two's complement to bits 12 to 20 and nothing to any other bit.
\<close>

theorem ldur_stur_immediate_window:
  assumes "instr = ''ldur'' \<or> instr = ''stur''" "validRegister rt" "validRegister rn"
  shows "((\<exists>w. encode instr rt rn v = Inr w) \<longleftrightarrow> - 256 \<le> v \<and> v \<le> 255)
    \<and> (\<not> (- 256 \<le> v \<and> v \<le> 255) \<longrightarrow>
          encode instr rt rn v = Inl (RuntimeError ''Immediate out of range for ldur/stur''))
    \<and> encode instr rt rn (- 257) = Inl (RuntimeError ''Immediate out of range for ldur/stur'')
    \<and> encode instr rt rn 256 = Inl (RuntimeError ''Immediate out of range for ldur/stur'')
    \<and> (\<forall>w. encode instr rt rn v = Inr w \<longrightarrow> uint (take_bit 9 (drop_bit 12 w)) = v mod 512)
    \<and> (\<forall>w. encode instr rt rn v = Inr w \<longrightarrow>
          uint w = (if instr = ''ldur'' then 0xF8400000 else 0xF8000000)
                     + rt + 32 * rn + 4096 * (v mod 512))"
proof -
  obtain base :: "32 word" where
    enc: "\<And>c. encode instr rt rn c = encodeMem base rt rn c" and
    base: "take_bit 9 (drop_bit 12 base) = 0" and
    low: "take_bit 21 base = 0" "uint base \<le> 2 ^ 32 - 2 ^ 21" and
    val: "uint base = (if instr = ''ldur'' then 0xF8400000 else 0xF8000000)"
  proof (cases "instr = ''ldur''")
    case True
    show ?thesis
      by (rule that [of "0xF8400000"]) (simp_all add: True encode_ldur)
  next
    case False
    then have "instr = ''stur''" using assms(1) by simp
    then show ?thesis
      using that [of "0xF8000000"] by (simp add: encode_stur)
  qed
  have word: "w = base OR word_of_int rt OR word_of_int (push_bit 5 rn)
                OR push_bit 12 ((word_of_int v :: 32 word) AND 0x1FF)"
    if "encode instr rt rn v = Inr w" for w
    using that by (simp add: enc encodeMem_ok [OF assms(2,3)] split: if_splits)
  have field: "uint (take_bit 9 (drop_bit 12 w)) = v mod 512"
    if "encode instr rt rn v = Inr w" for w
    unfolding word [OF that]
    using imm9_field [OF assms(2,3) base, of v] by (simp only: uint_low9)
  have whole: "uint w = (if instr = ''ldur'' then 0xF8400000 else 0xF8000000)
                     + rt + 32 * rn + 4096 * (v mod 512)"
    if "encode instr rt rn v = Inr w" for w
    unfolding word [OF that] shifted_register low9_truncation
      mem_word_value [OF assms(2,3) low] val ..
  show ?thesis
    using field whole by (simp add: enc encodeMem_ok [OF assms(2,3)])
qed

theorem ldur_stur_immediate_window_witness:
  "validRegister 1 \<and> validRegister 2
   \<and> encode ''ldur'' 1 2 (- 1) = Inr 0xF85FF041
   \<and> uint (take_bit 9 (drop_bit 12 (0xF85FF041 :: 32 word))) = (- 1) mod 512
   \<and> uint (0xF85FF041 :: 32 word) = 0xF8400000 + 1 + 32 * 2 + 4096 * ((- 1) mod 512)
   \<and> encode ''stur'' 1 2 (- 8) = Inr 0xF81F8041
   \<and> uint (0xF81F8041 :: 32 word) = 0xF8000000 + 1 + 32 * 2 + 4096 * ((- 8) mod 512)
   \<and> encode ''ldur'' 1 2 (- 256) = Inr 0xF8500041
   \<and> encode ''stur'' 1 2 255 = Inr 0xF80FF041
   \<and> encode ''ldur'' 1 2 (- 257) = Inl (RuntimeError ''Immediate out of range for ldur/stur'')
   \<and> encode ''stur'' 1 2 256 = Inl (RuntimeError ''Immediate out of range for ldur/stur'')"
proof -
  have r: "validRegister 1" "validRegister 2"
    by (simp_all add: validRegister_def)
  have e: "encode ''ldur'' 1 2 (- 1) = Inr 0xF85FF041"
          "encode ''stur'' 1 2 (- 8) = Inr 0xF81F8041"
          "encode ''ldur'' 1 2 (- 256) = Inr 0xF8500041"
          "encode ''stur'' 1 2 255 = Inr 0xF80FF041"
    by code_simp+
  show ?thesis
    using r e
      ldur_stur_immediate_window [of "''ldur''" 1 2 "- 1"]
      ldur_stur_immediate_window [of "''stur''" 1 2 "- 8"]
    by simp
qed

section \<open>Register slots of the operand patterns\<close>

lemma operands_reject:
  assumes "k < length pattern" "ti + k < length line"
    "decodeOperand syms pc (pattern ! k) (line ! (ti + k)) = (\<lambda>args ai. Inl e)"
  shows "isl (operands syms pc instr line pattern ti args ai)"
  using assms
proof (induction pattern arbitrary: k ti args ai)
  case Nil
  then show ?case by simp
next
  case (Cons p ps)
  show ?case
  proof (cases k)
    case 0
    with Cons.prems show ?thesis by simp
  next
    case (Suc k')
    with Cons.prems have "ti < length line" by simp
    show ?thesis
    proof (cases "decodeOperand syms pc p (line ! ti) args ai")
      case (Inl e')
      with \<open>ti < length line\<close> show ?thesis by simp
    next
      case (Inr r)
      obtain args' ai' where r: "r = (args', ai')" by (cases r)
      have "isl (operands syms pc instr line ps (Suc ti) args' ai')"
        using Cons.prems Suc by (intro Cons.IH [of k']) simp_all
      with Inr r \<open>ti < length line\<close> show ?thesis by simp
    qed
  qed
qed

text \<open>
  Claim C5.  \<open>readReg\<close> maps both \<open>xzr\<close> and \<open>sp\<close> to 31.  The operand switch of pass 2
  throws for the token \<open>ID sp\<close> under the pattern character \<open>z\<close> and for the token
  \<open>ZREG xzr\<close> under \<open>r\<close>; and whenever the pattern loop started at token index \<open>ti\<close> has
  such a token facing such a character at any position \<open>k\<close>, the loop ends in an exception.
\<close>

theorem sp_and_xzr_slots:
  "readReg ''xzr'' = Inr 31 \<and> readReg ''sp'' = Inr 31
   \<and> decodeOperand syms pc (CHR ''z'') (tok ID ''sp'') args ai
        = Inl (RuntimeError ''Expected register or xzr'')
   \<and> decodeOperand syms pc (CHR ''r'') (tok ZREG ''xzr'') args ai
        = Inl (RuntimeError ''Expected register or sp'')
   \<and> (\<forall>k. k < length pattern \<and> ti + k < length line
          \<and> ((pattern ! k = CHR ''z'' \<and> line ! (ti + k) = tok ID ''sp'')
             \<or> (pattern ! k = CHR ''r'' \<and> line ! (ti + k) = tok ZREG ''xzr''))
        \<longrightarrow> isl (operands syms pc instr line pattern ti args ai))"
proof -
  have z: "decodeOperand syms pc (CHR ''z'') (tok ID ''sp'')
             = (\<lambda>args ai. Inl (RuntimeError ''Expected register or xzr''))"
    by (intro ext) (simp add: decodeOperand_def tok_def)
  have r: "decodeOperand syms pc (CHR ''r'') (tok ZREG ''xzr'')
             = (\<lambda>args ai. Inl (RuntimeError ''Expected register or sp''))"
    by (intro ext) (simp add: decodeOperand_def tok_def)
  have regs: "readReg ''xzr'' = Inr 31" "readReg ''sp'' = Inr 31"
    by (simp_all add: readReg_def)
  have loop: "isl (operands syms pc instr line pattern ti args ai)"
    if "k < length pattern" "ti + k < length line"
       "(pattern ! k = CHR ''z'' \<and> line ! (ti + k) = tok ID ''sp'')
          \<or> (pattern ! k = CHR ''r'' \<and> line ! (ti + k) = tok ZREG ''xzr'')" for k
    using that operands_reject [of k pattern ti line syms pc] z r by auto
  show ?thesis
    using regs z r loop by auto
qed

theorem sp_and_xzr_slots_witness:
  "readReg ''xzr'' = Inr 31 \<and> readReg ''sp'' = Inr 31
   \<and> isl (operands empty_symbols 0 ''add''
        [tok ID ''add'', tok REG ''x1'', tok COMMA '','', tok REG ''x2'', tok COMMA '','', tok ID ''sp'']
        ''rcrcz'' 1 [0, 0, 0] 0)
   \<and> isl (operands empty_symbols 0 ''add''
        [tok ID ''add'', tok ZREG ''xzr'', tok COMMA '','', tok REG ''x2'', tok COMMA '','', tok REG ''x3'']
        ''rcrcz'' 1 [0, 0, 0] 0)
   \<and> assemble [tok ID ''add'', tok REG ''x1'', tok COMMA '','', tok REG ''x2'', tok COMMA '','', tok ID ''sp'']
        = ([], Inl (RuntimeError ''Expected register or xzr''))
   \<and> assemble [tok ID ''add'', tok REG ''x1'', tok COMMA '','', tok ID ''sp'', tok COMMA '','', tok ZREG ''xzr'']
        = ([0xE1, 0x63, 0x3F, 0x8B], Inr [])"
proof -
  have a: "assemble [tok ID ''add'', tok REG ''x1'', tok COMMA '','', tok REG ''x2'', tok COMMA '','', tok ID ''sp'']
        = ([], Inl (RuntimeError ''Expected register or xzr''))"
     "assemble [tok ID ''add'', tok REG ''x1'', tok COMMA '','', tok ID ''sp'', tok COMMA '','', tok ZREG ''xzr'']
        = ([0xE1, 0x63, 0x3F, 0x8B], Inr [])"
    by code_simp+
  show ?thesis
    using a
      sp_and_xzr_slots [of empty_symbols 0 "[0, 0, 0]" 0 "''rcrcz''" 1
        "[tok ID ''add'', tok REG ''x1'', tok COMMA '','', tok REG ''x2'', tok COMMA '','', tok ID ''sp'']" "''add''",
        THEN conjunct2, THEN conjunct2, THEN conjunct2, THEN conjunct2, THEN spec, of 4]
      sp_and_xzr_slots [of empty_symbols 0 "[0, 0, 0]" 0 "''rcrcz''" 1
        "[tok ID ''add'', tok ZREG ''xzr'', tok COMMA '','', tok REG ''x2'', tok COMMA '','', tok REG ''x3'']" "''add''",
        THEN conjunct2, THEN conjunct2, THEN conjunct2, THEN conjunct2, THEN spec, of 0]
    by (simp add: readReg_def)
qed

section \<open>Statements and pass 1\<close>

lemma groupLines_fold_inv:
  "[] \<notin> set (snd s) \<Longrightarrow> [] \<notin> set (snd (foldl groupLines_step s ts))"
proof (induction ts arbitrary: s)
  case Nil
  then show ?case by simp
next
  case (Cons t ts)
  have "[] \<notin> set (snd (groupLines_step s t))"
    using Cons.prems by (cases s) (simp add: groupLines_step_def)
  then show ?case using Cons.IH by simp
qed

lemma groupLines_nonempty: "[] \<notin> set (groupLines tokens)"
proof -
  obtain cur lines where f: "foldl groupLines_step ([], []) tokens = (cur, lines)"
    by (cases "foldl groupLines_step ([], []) tokens")
  have "[] \<notin> set lines"
    using groupLines_fold_inv [of "([], [])" tokens] f by simp
  then show ?thesis by (simp add: groupLines_def f)
qed

lemma pass1_line_pc:
  "pass1_line line (pc, st) = Inr (pc', st') \<Longrightarrow> pc' = pc + stmt_size line"
  by (auto simp: pass1_line_def stmt_size_def is_label_line_def is_data8_line_def
      split: if_splits sum.splits prod.splits option.splits)

lemma pass1_line_keeps:
  "pass1_line line (pc, st) = Inr (pc', st') \<Longrightarrow> sym_table st n = Some a \<Longrightarrow> sym_table st' n = Some a"
  by (auto simp: pass1_line_def define_sym_def
      split: if_splits sum.splits prod.splits option.splits)

lemma pass1_line_label:
  "pass1_line line (pc, st) = Inr (pc', st') \<Longrightarrow> is_label_line line \<Longrightarrow>
   \<exists>name. label_name (lexeme (line ! 0)) = Inr name \<and> sym_table st' name = Some pc"
  by (auto simp: pass1_line_def define_sym_def is_label_line_def
      split: if_splits sum.splits prod.splits option.splits)

lemma pass1_loop_append:
  "pass1_loop (xs @ ys) s =
     (case pass1_loop xs s of Inl e \<Rightarrow> Inl e | Inr s' \<Rightarrow> pass1_loop ys s')"
  by (induction xs arbitrary: s) (simp_all split: sum.splits)

lemma pass1_loop_pc:
  "pass1_loop lines (pc, st) = Inr (pc', st') \<Longrightarrow> pc' = pc + pc_sum lines"
proof (induction lines arbitrary: pc st)
  case Nil
  then show ?case by (simp add: pc_sum_def)
next
  case (Cons l ls)
  from Cons.prems obtain pc1 st1 where
    l: "pass1_line l (pc, st) = Inr (pc1, st1)" and r: "pass1_loop ls (pc1, st1) = Inr (pc', st')"
    by (auto split: sum.splits)
  show ?case
    using pass1_line_pc [OF l] Cons.IH [OF r] by (simp add: pc_sum_def)
qed

lemma pass1_loop_keeps:
  "pass1_loop lines (pc, st) = Inr (pc', st') \<Longrightarrow> sym_table st n = Some a \<Longrightarrow> sym_table st' n = Some a"
proof (induction lines arbitrary: pc st)
  case Nil
  then show ?case by simp
next
  case (Cons l ls)
  from Cons.prems obtain pc1 st1 where
    l: "pass1_line l (pc, st) = Inr (pc1, st1)" and r: "pass1_loop ls (pc1, st1) = Inr (pc', st')"
    by (auto split: sum.splits)
  show ?case
    using pass1_line_keeps [OF l Cons.prems(2)] Cons.IH [OF r] by simp
qed

lemma pass1_loop_label:
  "pass1_loop lines (pc, st) = Inr (pc', st') \<Longrightarrow> i < length lines \<Longrightarrow> is_label_line (lines ! i) \<Longrightarrow>
   \<exists>name. label_name (lexeme (lines ! i ! 0)) = Inr name
      \<and> sym_table st' name = Some (pc + pc_sum (take i lines))"
proof (induction lines arbitrary: pc st i)
  case Nil
  then show ?case by simp
next
  case (Cons l ls)
  from Cons.prems(1) obtain pc1 st1 where
    l: "pass1_line l (pc, st) = Inr (pc1, st1)" and r: "pass1_loop ls (pc1, st1) = Inr (pc', st')"
    by (auto split: sum.splits)
  show ?case
  proof (cases i)
    case 0
    then obtain name where n: "label_name (lexeme (l ! 0)) = Inr name" "sym_table st1 name = Some pc"
      using pass1_line_label [OF l] Cons.prems(3) by auto
    show ?thesis
      using 0 n pass1_loop_keeps [OF r n(2)] by (simp add: pc_sum_def)
  next
    case (Suc j)
    then have "\<exists>name. label_name (lexeme (ls ! j ! 0)) = Inr name
        \<and> sym_table st' name = Some (pc1 + pc_sum (take j ls))"
      using Cons.prems by (intro Cons.IH [OF r]) simp_all
    then show ?thesis
      using Suc pass1_line_pc [OF l] by (simp add: pc_sum_def add.assoc)
  qed
qed

section \<open>Pass 2\<close>

lemma pass2_line_pc:
  "pass2_line syms pc line = Inr (bs, pc') \<Longrightarrow> line \<noteq> [] \<Longrightarrow> pc' = pc + stmt_size line"
  by (auto simp: pass2_line_def stmt_size_def is_label_line_def is_data8_line_def Let_def
      bindE_eq_Inr split: if_splits prod.splits)

lemma pass2_loop_append:
  "pass2_loop syms pc (xs @ ys) =
     (case pass2_loop syms pc xs of
        (o1, pc1, Some e) \<Rightarrow> (o1, pc1, Some e)
      | (o1, pc1, None) \<Rightarrow>
          (case pass2_loop syms pc1 ys of (o2, pc2, r) \<Rightarrow> (o1 @ o2, pc2, r)))"
  by (induction xs arbitrary: pc) (simp_all split: sum.splits prod.splits option.splits)

lemma pass2_loop_pc:
  "pass2_loop syms pc lines = (out, pc', None) \<Longrightarrow> [] \<notin> set lines \<Longrightarrow> pc' = pc + pc_sum lines"
proof (induction lines arbitrary: pc out)
  case Nil
  then show ?case by (simp add: pc_sum_def)
next
  case (Cons l ls)
  from Cons.prems(1) obtain bs pc1 out1 where
    l: "pass2_line syms pc l = Inr (bs, pc1)" and r: "pass2_loop syms pc1 ls = (out1, pc', None)"
    by (auto split: sum.splits prod.splits)
  have "l \<noteq> []" "[] \<notin> set ls"
    using Cons.prems(2) by auto
  then show ?case
    using pass2_line_pc [OF l] Cons.IH [OF r] by (simp add: pc_sum_def add.assoc)
qed

lemma pass2_loop_prefix:
  "pass2_loop syms pc lines = (out, pc', None) \<Longrightarrow>
   \<exists>o1. pass2_loop syms pc (take i lines) = (o1, fst (snd (pass2_loop syms pc (take i lines))), None)"
proof -
  assume a: "pass2_loop syms pc lines = (out, pc', None)"
  have "pass2_loop syms pc (take i lines @ drop i lines) = (out, pc', None)"
    using a by simp
  then show ?thesis
    unfolding pass2_loop_append
    by (cases "pass2_loop syms pc (take i lines)") (auto split: option.splits prod.splits)
qed

text \<open>
  Claim C3.  For a program that assembles successfully, with \<open>lines\<close> its statements:
  before each position \<open>i\<close> both passes have the same PC, namely 0 plus 8 for each
  \<open>.8byte\<close> statement, 4 for each instruction statement and 0 for each label-only
  statement among the first \<open>i\<close>; and for each label-only statement at a position \<open>i\<close>,
  \<open>lookup\<close> of its name is the pass-2 PC at \<open>i\<close>.
\<close>

theorem pass_pc_agreement:
  assumes "assemble tokens = (out, Inr labels)" and "lines = groupLines tokens"
  shows "\<exists>syms. pass1 lines = Inr syms
     \<and> (\<forall>i \<le> length lines.
           (\<exists>s. pass1_loop (take i lines) (0, empty_symbols) = Inr (pc_sum (take i lines), s))
         \<and> (\<exists>bs. pass2_loop syms 0 (take i lines) = (bs, pc_sum (take i lines), None)))
     \<and> (\<forall>i < length lines. is_label_line (lines ! i) \<longrightarrow>
           (\<exists>name. label_name (lexeme (lines ! i ! 0)) = Inr name
              \<and> lookup name syms = Inr (pc_sum (take i lines))))"
proof -
  from assms obtain syms where p1: "pass1 lines = Inr syms"
    by (auto simp: assemble_def Let_def split: sum.splits)
  then obtain pcf where l1: "pass1_loop lines (0, empty_symbols) = Inr (pcf, syms)"
    by (auto simp: pass1_def bindE_eq_Inr)
  from assms p1 obtain pc2 where l2: "pass2_loop syms 0 lines = (out, pc2, None)"
    by (auto simp: assemble_def pass2_def Let_def split: sum.splits prod.splits option.splits)
  have ne: "[] \<notin> set lines"
    using assms(2) groupLines_nonempty by simp
  have pcs: "(\<exists>s. pass1_loop (take i lines) (0, empty_symbols) = Inr (pc_sum (take i lines), s))
         \<and> (\<exists>bs. pass2_loop syms 0 (take i lines) = (bs, pc_sum (take i lines), None))" for i
  proof
    have "pass1_loop (take i lines @ drop i lines) (0, empty_symbols) = Inr (pcf, syms)"
      using l1 by simp
    then obtain pci si where pi: "pass1_loop (take i lines) (0, empty_symbols) = Inr (pci, si)"
      unfolding pass1_loop_append by (auto split: sum.splits)
    then show "\<exists>s. pass1_loop (take i lines) (0, empty_symbols) = Inr (pc_sum (take i lines), s)"
      using pass1_loop_pc [OF pi] by simp
    obtain o1 where q: "pass2_loop syms 0 (take i lines)
        = (o1, fst (snd (pass2_loop syms 0 (take i lines))), None)"
      using pass2_loop_prefix [OF l2] by blast
    have "[] \<notin> set (take i lines)"
      using ne by (auto dest: in_set_takeD)
    then show "\<exists>bs. pass2_loop syms 0 (take i lines) = (bs, pc_sum (take i lines), None)"
      using pass2_loop_pc [OF q] q by auto
  qed
  have lab: "\<exists>name. label_name (lexeme (lines ! i ! 0)) = Inr name
              \<and> lookup name syms = Inr (pc_sum (take i lines))"
    if "i < length lines" "is_label_line (lines ! i)" for i
    using pass1_loop_label [OF l1 that] by (auto simp: lookup_def)
  show ?thesis
    using p1 pcs lab by blast
qed


theorem pass_pc_agreement_witness:
  "assemble
     [tok LABEL ''loop:'', tok NEWLINE [],
      tok ID ''add'', tok REG ''x1'', tok COMMA '','', tok REG ''x1'', tok COMMA '','', tok REG ''x3'', tok NEWLINE [],
      tok DOTID ''.8byte'', tok ID ''done'', tok NEWLINE [],
      tok LABEL ''done:'', tok NEWLINE [],
      tok ID ''b'', tok ID ''loop'', tok NEWLINE []]
     = ([33, 96, 35, 139, 12, 0, 0, 0, 0, 0, 0, 0, 253, 255, 255, 23],
        Inr [(''loop'', 0), (''done'', 12)])
   \<and> (\<exists>syms.
        pass1 [[tok LABEL ''loop:''],
               [tok ID ''add'', tok REG ''x1'', tok COMMA '','', tok REG ''x1'', tok COMMA '','', tok REG ''x3''],
               [tok DOTID ''.8byte'', tok ID ''done''],
               [tok LABEL ''done:''],
               [tok ID ''b'', tok ID ''loop'']] = Inr syms
        \<and> lookup ''done'' syms = Inr 12
        \<and> (\<exists>bs. pass2_loop syms 0
               [[tok LABEL ''loop:''],
                [tok ID ''add'', tok REG ''x1'', tok COMMA '','', tok REG ''x1'', tok COMMA '','', tok REG ''x3''],
                [tok DOTID ''.8byte'', tok ID ''done'']] = (bs, 12, None)))"
proof -
  let ?T = "[tok LABEL ''loop:'', tok NEWLINE [],
      tok ID ''add'', tok REG ''x1'', tok COMMA '','', tok REG ''x1'', tok COMMA '','', tok REG ''x3'', tok NEWLINE [],
      tok DOTID ''.8byte'', tok ID ''done'', tok NEWLINE [],
      tok LABEL ''done:'', tok NEWLINE [],
      tok ID ''b'', tok ID ''loop'', tok NEWLINE []]"
  let ?L = "[[tok LABEL ''loop:''],
               [tok ID ''add'', tok REG ''x1'', tok COMMA '','', tok REG ''x1'', tok COMMA '','', tok REG ''x3''],
               [tok DOTID ''.8byte'', tok ID ''done''],
               [tok LABEL ''done:''],
               [tok ID ''b'', tok ID ''loop'']]"
  have a: "assemble ?T = ([33, 96, 35, 139, 12, 0, 0, 0, 0, 0, 0, 0, 253, 255, 255, 23],
        Inr [(''loop'', 0), (''done'', 12)])"
    by code_simp
  have g: "?L = groupLines ?T"
    by code_simp
  have lab: "is_label_line (?L ! 3)" "label_name (lexeme (?L ! 3 ! 0)) = Inr ''done''"
    by code_simp+
  have pc: "pc_sum (take 3 ?L) = 12"
    by code_simp
  have t3: "take 3 ?L = [[tok LABEL ''loop:''],
                [tok ID ''add'', tok REG ''x1'', tok COMMA '','', tok REG ''x1'', tok COMMA '','', tok REG ''x3''],
                [tok DOTID ''.8byte'', tok ID ''done'']]"
    by simp
  from pass_pc_agreement [OF a g] obtain syms where
    p1: "pass1 ?L = Inr syms" and
    pcs: "\<forall>i \<le> length ?L.
           (\<exists>s. pass1_loop (take i ?L) (0, empty_symbols) = Inr (pc_sum (take i ?L), s))
         \<and> (\<exists>bs. pass2_loop syms 0 (take i ?L) = (bs, pc_sum (take i ?L), None))" and
    lb: "\<forall>i < length ?L. is_label_line (?L ! i) \<longrightarrow>
           (\<exists>name. label_name (lexeme (?L ! i ! 0)) = Inr name
              \<and> lookup name syms = Inr (pc_sum (take i ?L)))"
    by blast
  have "3 < length ?L" by simp
  with lb lab(1) have "\<exists>name. label_name (lexeme (?L ! 3 ! 0)) = Inr name
              \<and> lookup name syms = Inr (pc_sum (take 3 ?L))"
    by blast
  then have l: "lookup ''done'' syms = Inr 12"
    unfolding lab(2) pc by simp
  have "3 \<le> length ?L" by simp
  with pcs have "\<exists>bs. pass2_loop syms 0 (take 3 ?L) = (bs, pc_sum (take 3 ?L), None)"
    by blast
  then have q: "\<exists>bs. pass2_loop syms 0 (take 3 ?L) = (bs, 12, None)"
    unfolding pc .
  show ?thesis
    using a p1 l q unfolding t3 by blast
qed

section \<open>PC-relative offsets of labels\<close>

lemma trunc_div_exact: "off smod 4 = 0 \<Longrightarrow> 4 * (off sdiv 4) = (off :: int)"
proof -
  assume a: "off smod 4 = 0"
  have s: "off smod 4 = sgn off * (\<bar>off\<bar> mod 4)" "off sdiv 4 = sgn off * (\<bar>off\<bar> div 4)"
    by (simp_all add: signed_modulo_int_def signed_divide_int_def)
  show ?thesis
  proof (cases "off = 0")
    case True then show ?thesis by (simp add: s)
  next
    case False
    then have "\<bar>off\<bar> mod 4 = 0" using a s by (auto simp: sgn_if split: if_splits)
    then have "4 * (\<bar>off\<bar> div 4) = \<bar>off\<bar>" by presburger
    then have "4 * (off sdiv 4) = sgn off * \<bar>off\<bar>"
      unfolding s by (simp add: algebra_simps)
    then show ?thesis by (simp add: sgn_if abs_if split: if_splits)
  qed
qed

lemma field_value:
  fixes w :: "32 word"
  assumes f: "take_bit width (drop_bit lo w) = take_bit width (word_of_int q)"
    and w: "0 < width" "width \<le> 32"
    and q: "- (2 ^ (width - 1)) \<le> q" "q < 2 ^ (width - 1)"
  shows "imm_field lo width w = q"
proof -
  have "uint (take_bit width (word_of_int q :: 32 word)) = take_bit width (uint (word_of_int q :: 32 word))"
    by (rule unsigned_take_bit_eq)
  also have "\<dots> = take_bit width (take_bit 32 q)"
    by (simp only: uint_word_of_int_eq) simp
  also have "\<dots> = take_bit width q"
    using w by (simp add: take_bit_take_bit min_def)
  finally have u: "uint (take_bit width (drop_bit lo w)) = take_bit width q"
    unfolding f .
  have "signed_take_bit (width - 1) (take_bit width q) = signed_take_bit (width - 1) q"
    using w by (auto simp add: signed_take_bit_take_bit)
  also have "\<dots> = q"
    using q by (intro signed_take_bit_int_eq_self) simp_all
  finally show ?thesis
    unfolding imm_field_def u .
qed

lemma c14: "(0x14000000 :: 32 word) = push_bit 26 5" by simp
lemma c54: "(0x54000000 :: 32 word) = push_bit 26 21" by simp
lemma c58: "(0x58000000 :: 32 word) = push_bit 26 22" by simp
lemma m26: "(0x3FFFFFF :: 32 word) = mask 26" by (simp add: mask_eq_exp_minus_1)
lemma m19: "(0x7FFFF :: 32 word) = mask 19" by (simp add: mask_eq_exp_minus_1)

lemma encodeBranch_field:
  assumes "encodeBranch off = Inr w"
  shows "4 * imm_field 0 26 w = off"
proof -
  from assms have d: "off smod 4 = 0" and v: "validSignedImm (off sdiv 4) 26"
    and w: "w = 0x14000000 OR ((word_of_int (off sdiv 4) :: 32 word) AND 0x3FFFFFF)"
    by (auto simp: encodeBranch_def Let_def split: if_splits)
  have "take_bit 26 (drop_bit 0 w) = take_bit 26 (word_of_int (off sdiv 4))"
    unfolding w c14 m26 by (rule bit_eqI) (auto simp: bit_simps)
  then have "imm_field 0 26 w = off sdiv 4"
    using v by (intro field_value) (simp_all add: validSignedImm_def)
  then show ?thesis using trunc_div_exact [OF d] by simp
qed


lemma small_int_bits:
  assumes "0 \<le> r" "r < 32" "5 \<le> n"
  shows "\<not> bit (r :: int) n"
  using reg_high_bits [of r n] assms by simp

lemma encodeBCond_field:
  assumes "encodeBCond c off = Inr w"
  shows "4 * imm_field 5 19 w = off"
proof -
  from assms have d: "off smod 4 = 0" and v: "validSignedImm (off sdiv 4) 19"
    and w: "w = 0x54000000 OR push_bit 5 ((word_of_int (off sdiv 4) :: 32 word) AND 0x7FFFF)
                 OR word_of_int (c AND 0x1F)"
    by (auto simp: encodeBCond_def Let_def split: if_splits)
  have "0 \<le> c AND 0x1F" "c AND 0x1F < 32"
    using AND_upper2' [of 31 c] by (simp_all add: and.commute)
  then have c: "\<not> bit (c AND 0x1F) (5 + n)" for n
    by (intro small_int_bits) simp_all
  have "take_bit 19 (drop_bit 5 w) = take_bit 19 (word_of_int (off sdiv 4))"
    unfolding w c54 m19 using c by (intro bit_eqI) (auto simp: bit_simps)
  then have "imm_field 5 19 w = off sdiv 4"
    using v by (intro field_value) (simp_all add: validSignedImm_def)
  then show ?thesis using trunc_div_exact [OF d] by simp
qed

lemma encodeLdr_field:
  assumes "encodeLdr rd off = Inr w"
  shows "4 * imm_field 5 19 w = off"
proof -
  from assms have d: "off smod 4 = 0" and v: "validSignedImm (off sdiv 4) 19"
    and r: "validRegister rd"
    and w: "w = 0x58000000 OR word_of_int rd
                 OR push_bit 5 ((word_of_int (off sdiv 4) :: 32 word) AND 0x7FFFF)"
    by (auto simp: encodeLdr_def requireReg_def Let_def bindE_eq_Inr split: if_splits)
  have c: "\<not> bit rd (5 + n)" for n
    using r by (intro small_int_bits) (simp_all add: validRegister_def)
  have "take_bit 19 (drop_bit 5 w) = take_bit 19 (word_of_int (off sdiv 4))"
    unfolding w c58 m19 using c by (intro bit_eqI) (auto simp: bit_simps)
  then have "imm_field 5 19 w = off sdiv 4"
    using v by (intro field_value) (simp_all add: validSignedImm_def)
  then show ?thesis using trunc_div_exact [OF d] by simp
qed

lemma cast_int_exact:
  fixes d :: "64 word"
  assumes "- (2 ^ 31) \<le> sint d" "sint d < 2 ^ 31"
  shows "sint (ucast d :: 32 word) = sint d"
proof -
  have "sint (ucast d :: 32 word) = signed_take_bit 31 (uint d)"
    by (simp add: signed_ucast_eq)
  also have "\<dots> = signed_take_bit 31 (sint d)"
    by (rule bit_eqI) (auto simp: bit_simps bit_sint_iff bit_signed_take_bit_iff bit_uint_iff min_def)
  also have "\<dots> = sint d"
    using assms by (intro signed_take_bit_int_eq_self) simp_all
  finally show ?thesis .
qed


lemma pass2_line_b_label:
  assumes "lookup L syms = Inr a"
  shows "pass2_line syms pc [tok ID ''b'', tok ID L]
     = bindE (encodeBranch (sint (ucast (a - pc) :: 32 word))) (\<lambda>w. Inr (emit32le w, pc + 4))"
  using assms
  by (simp add: pass2_line_def tok_def patterns_def bcond_case_def decodeOperand_def
      store_arg_def encode_def)

lemma pass2_line_bcond_label:
  assumes "lookup L syms = Inr a"
  shows "pass2_line syms pc [tok ID ''b'', tok DOTID c, tok ID L]
     = (case condCodes c of
          None \<Rightarrow> Inl (RuntimeError (''Invalid condition: '' @ c))
        | Some cc \<Rightarrow> bindE (encodeBCond cc (sint (ucast (a - pc) :: 32 word)))
                      (\<lambda>w. Inr (emit32le w, pc + 4)))"
  using assms
  by (simp add: pass2_line_def tok_def patterns_def bcond_case_def decodeOperand_def
      store_arg_def encode_def split: option.splits)

lemma pass2_line_ldr_label:
  assumes "lookup L syms = Inr a"
  shows "pass2_line syms pc [tok ID ''ldr'', t, tok COMMA s, tok ID L]
     = bindE (if type t = REG \<or> (type t = ID \<and> lexeme t = ''sp'') then readReg (lexeme t)
              else Inl (RuntimeError ''Expected register or sp''))
         (\<lambda>r. bindE (encodeLdr (sint r) (sint (ucast (a - pc) :: 32 word)))
                 (\<lambda>w. Inr (emit32le w, pc + 4)))"
  using assms
  by (cases "readReg (lexeme t)")
     (simp_all add: pass2_line_def tok_def patterns_def bcond_case_def decodeOperand_def
      store_arg_def encode_def)

text \<open>
  When the 64-bit difference \<open>lookup(L) - PC\<close> fits 32 bits, the cast to \<open>int\<close> keeps
  it, and every statement \<open>b L\<close>, \<open>b.cond L\<close> or \<open>ldr xd, L\<close> that pass 2 accepts is
  written as a word whose immediate field, sign-extended and multiplied by 4, is that
  difference.
\<close>

lemma label_offset_within_32_bits:
  assumes look: "lookup L syms = Inr a"
    and fit: "- (2 ^ 31) \<le> sint (a - pc)" "sint (a - pc) < 2 ^ 31"
    and ok: "pass2_line syms pc line = Inr (bs, pc')"
    and shape: "line = [tok ID ''b'', tok ID L] \<and> lo = 0 \<and> width = 26
       \<or> (\<exists>c. line = [tok ID ''b'', tok DOTID c, tok ID L]) \<and> lo = 5 \<and> width = 19
       \<or> (\<exists>t s. line = [tok ID ''ldr'', t, tok COMMA s, tok ID L]) \<and> lo = 5 \<and> width = 19"
  shows "\<exists>w. bs = emit32le w \<and> 4 * imm_field lo width w = sint (a - pc)"
proof -
  note c = cast_int_exact [OF fit]
  from shape consider
      (b) "line = [tok ID ''b'', tok ID L]" "lo = 0" "width = 26"
    | (bc) c where "line = [tok ID ''b'', tok DOTID c, tok ID L]" "lo = 5" "width = 19"
    | (ldr) t s where "line = [tok ID ''ldr'', t, tok COMMA s, tok ID L]" "lo = 5" "width = 19"
    by blast
  then show ?thesis
  proof cases
    case b
    from ok obtain w where "encodeBranch (sint (a - pc)) = Inr w" "bs = emit32le w"
      unfolding b(1) pass2_line_b_label [OF look] c by (auto simp: bindE_eq_Inr)
    then show ?thesis
      using encodeBranch_field b by blast
  next
    case bc
    from ok obtain cc w where "encodeBCond cc (sint (a - pc)) = Inr w" "bs = emit32le w"
      unfolding bc(1) pass2_line_bcond_label [OF look] c
      by (auto simp: bindE_eq_Inr split: option.splits)
    then show ?thesis
      using encodeBCond_field bc by blast
  next
    case ldr
    from ok obtain r w where "encodeLdr r (sint (a - pc)) = Inr w" "bs = emit32le w"
      unfolding ldr(1) pass2_line_ldr_label [OF look] c
      by (auto simp: bindE_eq_Inr)
    then show ?thesis
      using encodeLdr_field ldr by blast
  qed
qed

section \<open>Programs with a label far from its use\<close>

lemma groupLines_fold_stmt:
  assumes "stmt \<noteq> []" "\<forall>t \<in> set stmt. type t \<noteq> NEWLINE"
  shows "foldl groupLines_step (cur, lines) stmt = (cur @ stmt, lines)"
  using assms
proof (induction stmt arbitrary: cur)
  case Nil
  then show ?case by simp
next
  case (Cons t ts)
  show ?case
  proof (cases "ts = []")
    case True
    with Cons.prems show ?thesis by (simp add: groupLines_step_def)
  next
    case False
    with Cons show ?thesis by (simp add: groupLines_step_def)
  qed
qed

lemma groupLines_fold_line:
  assumes "stmt \<noteq> []" "\<forall>t \<in> set stmt. type t \<noteq> NEWLINE"
  shows "foldl groupLines_step ([], lines) (stmt @ [tok NEWLINE []]) = ([], lines @ [stmt])"
  using assms by (simp add: groupLines_fold_stmt groupLines_step_def tok_def)

lemma groupLines_fold_replicate:
  assumes "stmt \<noteq> []" "\<forall>t \<in> set stmt. type t \<noteq> NEWLINE"
  shows "foldl groupLines_step ([], lines) (concat (replicate n (stmt @ [tok NEWLINE []])))
           = ([], lines @ replicate n stmt)"
proof (induction n arbitrary: lines)
  case 0
  then show ?case by simp
next
  case (Suc n)
  have "foldl groupLines_step ([], lines) (concat (replicate (Suc n) (stmt @ [tok NEWLINE []])))
      = foldl groupLines_step (foldl groupLines_step ([], lines) (stmt @ [tok NEWLINE []]))
          (concat (replicate n (stmt @ [tok NEWLINE []])))"
    by (simp del: append_assoc add: append_assoc [symmetric])
  also have "\<dots> = ([], (lines @ [stmt]) @ replicate n stmt)"
    unfolding groupLines_fold_line [OF assms] Suc.IH ..
  finally show ?case by (simp add: replicate_app_Cons_same)
qed

lemma groupLines_padded:
  assumes "first \<noteq> []" "\<forall>t \<in> set first. type t \<noteq> NEWLINE"
          "last_stmt \<noteq> []" "\<forall>t \<in> set last_stmt. type t \<noteq> NEWLINE"
  shows "groupLines (padded_program first n last_stmt)
           = [first] @ replicate n data8_zero @ [last_stmt]"
proof -
  have d: "data8_zero \<noteq> []" "\<forall>t \<in> set data8_zero. type t \<noteq> NEWLINE"
    by (simp_all add: data8_zero_def tok_def)
  have "foldl groupLines_step ([], []) (padded_program first n last_stmt)
      = foldl groupLines_step
          (foldl groupLines_step
             (foldl groupLines_step ([], []) (first @ [tok NEWLINE []]))
             (concat (replicate n (data8_zero @ [tok NEWLINE []]))))
          (last_stmt @ [tok NEWLINE []])"
    by (simp add: padded_program_def)
  also have "\<dots> = ([], (([] @ [first]) @ replicate n data8_zero) @ [last_stmt])"
    unfolding groupLines_fold_line [OF assms(1,2)] groupLines_fold_replicate [OF d]
      groupLines_fold_line [OF assms(3,4)] ..
  finally show ?thesis by (simp add: groupLines_def)
qed

lemma pass1_line_data8: "pass1_line data8_zero (pc, st) = Inr (pc + 8, st)"
  by (simp add: pass1_line_def data8_zero_def tok_def)

lemma pass1_loop_replicate:
  "pass1_loop (replicate n data8_zero) (pc, st) = Inr (pc + 8 * of_nat n, st)"
  by (induction n arbitrary: pc) (simp_all add: pass1_line_data8 algebra_simps)

lemma stoull_zero: "stoull ''0'' 0 = Inr 0"
  by code_simp

lemma pass2_line_data8: "pass2_line syms pc data8_zero = Inr (emit64le 0, pc + 8)"
  by (simp add: pass2_line_def data8_zero_def tok_def stoull_zero)

lemma pass2_loop_replicate:
  "pass2_loop syms pc (replicate n data8_zero)
     = (concat (replicate n (emit64le 0)), pc + 8 * of_nat n, None)"
  by (induction n arbitrary: pc) (simp_all add: pass2_line_data8 algebra_simps)


lemma assemble_padded:
  assumes "first \<noteq> []" "\<forall>t \<in> set first. type t \<noteq> NEWLINE"
          "last_stmt \<noteq> []" "\<forall>t \<in> set last_stmt. type t \<noteq> NEWLINE"
      and "pass1_line first (0, empty_symbols) = Inr (pc1, st1)"
      and "pass1_line last_stmt (pc1 + 8 * of_nat n, st1) = Inr (pc2, syms)"
      and "pass2_line syms 0 first = Inr (b1, q1)"
      and "pass2_line syms (q1 + 8 * of_nat n) last_stmt = Inr (b2, q2)"
  shows "assemble (padded_program first n last_stmt)
           = (b1 @ concat (replicate n (emit64le 0)) @ b2, dumpSymbols syms)"
proof -
  have g: "groupLines (padded_program first n last_stmt)
           = [first] @ replicate n data8_zero @ [last_stmt]"
    by (rule groupLines_padded [OF assms(1-4)])
  have p1: "pass1 (first # replicate n data8_zero @ [last_stmt]) = Inr syms"
    by (simp add: pass1_def pass1_loop_append assms(5,6) pass1_loop_replicate)
  have p2: "pass2 syms (first # replicate n data8_zero @ [last_stmt])
           = (b1 @ concat (replicate n (emit64le 0)) @ b2, None)"
    by (simp add: pass2_def pass2_loop_append assms(7,8) pass2_loop_replicate)
  show ?thesis
    by (simp add: assemble_def g p1 p2)
qed

lemma big_pad: "(8 :: 64 word) * of_nat (2 ^ 29) = 0x100000000"
  by simp

text \<open>
  Claim C9 at a program whose label is \<open>2^32 + 4\<close> bytes after an \<open>ldr x1, L\<close> at
  address 0.  The offset \<open>4294967300\<close> does not fit the 19-bit field (the encoder rejects
  it when given that value), but the cast to \<open>int\<close> in pass 2 keeps its low 32 bits,
  which are 4, and the program assembles without an error, to the word of \<open>ldr x1, 4\<close>.
\<close>

theorem far_label_offset_wraps:
  "assemble (padded_program [tok ID ''ldr'', tok REG ''x1'', tok COMMA '','', tok ID ''L''] (2 ^ 29)
                  [tok LABEL ''L:''])
     = (emit32le 0x58000021 @ concat (replicate (2 ^ 29) (emit64le 0)), Inr [(''L'', 0x100000004)])
   \<and> sint ((0x100000004 :: 64 word) - 0) = 4294967300
   \<and> \<not> validSignedImm (4294967300 sdiv 4) 19
   \<and> encodeLdr 1 4294967300 = Inl (RuntimeError ''ldr offset out of range'')
   \<and> sint (ucast ((0x100000004 :: 64 word) - 0) :: 32 word) = 4
   \<and> encodeLdr 1 4 = Inr 0x58000021"
proof -
  let ?syms = "\<lparr>sym_table = [''L'' \<mapsto> 0x100000004 :: 64 word], sym_order = [''L'']\<rparr>"
  have a: "pass1_line [tok ID ''ldr'', tok REG ''x1'', tok COMMA '','', tok ID ''L''] (0, empty_symbols)
             = Inr (4, empty_symbols)"
    by (simp add: pass1_line_def tok_def)
  have b: "pass1_line [tok LABEL ''L:''] (4 + 8 * of_nat (2 ^ 29), empty_symbols) = Inr (0x100000004, ?syms)"
    unfolding big_pad by (simp add: pass1_line_def tok_def label_name_def define_sym_def empty_symbols_def)
  have c: "pass2_line ?syms 0 [tok ID ''ldr'', tok REG ''x1'', tok COMMA '','', tok ID ''L'']
             = Inr (emit32le 0x58000021, 4)"
    by code_simp
  have d: "pass2_line ?syms (4 + 8 * of_nat (2 ^ 29)) [tok LABEL ''L:''] = Inr ([], 0x100000004)"
    unfolding big_pad by (simp add: pass2_line_def tok_def)
  have e: "dumpSymbols ?syms = Inr [(''L'', 0x100000004)]"
    by (simp add: dumpSymbols_def order_def lookup_def)
  have run: "assemble (padded_program [tok ID ''ldr'', tok REG ''x1'', tok COMMA '','', tok ID ''L''] (2 ^ 29)
                  [tok LABEL ''L:''])
     = (emit32le 0x58000021 @ concat (replicate (2 ^ 29) (emit64le 0)), Inr [(''L'', 0x100000004)])"
    using assemble_padded [OF _ _ _ _ a b c d] by (simp add: tok_def e)
  have f: "sint ((0x100000004 :: 64 word) - 0) = 4294967300"
      "\<not> validSignedImm (4294967300 sdiv 4) 19"
      "encodeLdr 1 4294967300 = Inl (RuntimeError ''ldr offset out of range'')"
      "sint (ucast ((0x100000004 :: 64 word) - 0) :: 32 word) = 4"
      "encodeLdr 1 4 = Inr 0x58000021"
    by code_simp+
  show ?thesis
    using run f by simp
qed

text \<open>
  Claim C2 at a program that assembles successfully: the label \<open>L\<close> at address 0, then
  \<open>2^29\<close> statements \<open>.8byte 0\<close>, then \<open>b L\<close>, whose pass-2 PC is \<open>2^32\<close>.  The word
  written is \<open>0x14000000\<close>: its immediate, sign-extended and multiplied by 4, is 0,
  whereas \<open>lookup(L) - PC\<close> is \<open>-2^32\<close>.
\<close>

theorem far_label_branch_immediate:
  "assemble (padded_program [tok LABEL ''L:''] (2 ^ 29) [tok ID ''b'', tok ID ''L''])
     = (concat (replicate (2 ^ 29) (emit64le 0)) @ emit32le 0x14000000, Inr [(''L'', 0)])
   \<and> pass2_loop \<lparr>sym_table = [''L'' \<mapsto> 0], sym_order = [''L'']\<rparr> 0
        ([tok LABEL ''L:''] # replicate (2 ^ 29) data8_zero)
       = (concat (replicate (2 ^ 29) (emit64le 0)), 0x100000000, None)
   \<and> lookup ''L'' \<lparr>sym_table = [''L'' \<mapsto> 0], sym_order = [''L'']\<rparr> = Inr 0
   \<and> sint ((0 :: 64 word) - 0x100000000) = - 4294967296
   \<and> 4 * imm_field 0 26 0x14000000 = 0"
proof -
  let ?syms = "\<lparr>sym_table = [''L'' \<mapsto> 0 :: 64 word], sym_order = [''L'']\<rparr>"
  have a: "pass1_line [tok LABEL ''L:''] (0, empty_symbols) = Inr (0, ?syms)"
    by (simp add: pass1_line_def tok_def label_name_def define_sym_def empty_symbols_def)
  have b: "pass1_line [tok ID ''b'', tok ID ''L''] (0 + 8 * of_nat (2 ^ 29), ?syms)
             = Inr (0x100000004, ?syms)"
    unfolding big_pad by (simp add: pass1_line_def tok_def)
  have c: "pass2_line ?syms 0 [tok LABEL ''L:''] = Inr ([], 0)"
    by (simp add: pass2_line_def tok_def)
  have d0: "pass2_line ?syms 0x100000000 [tok ID ''b'', tok ID ''L''] = Inr (emit32le 0x14000000, 0x100000004)"
    by code_simp
  have d: "pass2_line ?syms (0 + 8 * of_nat (2 ^ 29)) [tok ID ''b'', tok ID ''L'']
             = Inr (emit32le 0x14000000, 0x100000004)"
    unfolding big_pad using d0 by simp
  have e: "dumpSymbols ?syms = Inr [(''L'', 0)]"
    by (simp add: dumpSymbols_def order_def lookup_def)
  have run: "assemble (padded_program [tok LABEL ''L:''] (2 ^ 29) [tok ID ''b'', tok ID ''L''])
     = (concat (replicate (2 ^ 29) (emit64le 0)) @ emit32le 0x14000000, Inr [(''L'', 0)])"
    using assemble_padded [OF _ _ _ _ a b c d] by (simp add: tok_def e)
  have pc: "pass2_loop ?syms 0 ([tok LABEL ''L:''] # replicate (2 ^ 29) data8_zero)
       = (concat (replicate (2 ^ 29) (emit64le 0)), 0x100000000, None)"
    using big_pad by (simp add: c pass2_loop_replicate)
  have f: "lookup ''L'' ?syms = Inr 0"
      "sint ((0 :: 64 word) - 0x100000000) = - 4294967296"
      "4 * imm_field 0 26 0x14000000 = 0"
    by code_simp+
  show ?thesis
    using run pc f by simp
qed

section \<open>The two pseudocode front-ends\<close>

lemma noerr_simps [simp]:
  "noerr (Inl e) = None" "noerr (Inr x) = Some x"
  by (simp_all add: noerr_def)

lemma noerr_bindE [simp]: "noerr (bindE m f) = Option.bind (noerr m) (\<lambda>x. noerr (f x))"
  by (cases m) simp_all

lemma noerr_if [simp]: "noerr (if c then a else b) = (if c then noerr a else noerr b)"
  by simp

lemma bind_case_prod [simp]:
  "Option.bind (case p of (a, b) \<Rightarrow> f a b) g = (case p of (a, b) \<Rightarrow> Option.bind (f a b) g)"
  by (cases p) simp

lemma bind_if [simp]:
  "Option.bind (if c then a else b) g = (if c then Option.bind a g else Option.bind b g)"
  by simp

lemma noerr_case_prod [simp]: "noerr (case p of (a, b) \<Rightarrow> f a b) = (case p of (a, b) \<Rightarrow> noerr (f a b))"
  by (cases p) simp

lemma noerr_regToken: "noerr (regToken_cg s) = noerr (regToken_tok s)"
  by (simp add: regToken_cg_def regToken_tok_def)

lemma isInt_loop: "(\<not> list_ex (\<lambda>c. \<not> isdigit c) xs) = list_all isdigit xs"
  by (induction xs) simp_all

lemma noerr_immOrLabel: "noerr (immOrLabel_cg s) = noerr (immOrLabel_tok s)"
  by (auto simp: immOrLabel_cg_def immOrLabel_tok_def isInteger_def isInt_loop Let_def)

lemma noerr_condSuffix: "noerr (condSuffix_cg s) = noerr (condSuffix_tok s)"
  by (simp add: condSuffix_cg_def condSuffix_tok_def)

lemma noerr_emit3Reg: "noerr (emit3Reg i a b c) = noerr (emitInstr i a b c)"
  by (simp add: emit3Reg_def emitInstr_def noerr_regToken)

lemma lower_line_simps [simp]:
  "lower_line [] = Some []" "lower_line [i] = noerr (lowerOne i)"
  by (simp_all add: lower_line_def)

lemma regToken_xzr: "regToken_tok ''xzr'' = Inr (tok ZREG ''xzr'')"
  by (simp add: regToken_tok_def)

lemmas lower_simps = lowerOne_def mkIR_def noerr_regToken noerr_immOrLabel noerr_condSuffix noerr_emit3Reg

lemma parseLoad_agree:
  "Option.bind (noerr (parseLoad_ir dest rhs)) lower_line = noerr (parseLoad_tok dest rhs)"
  unfolding parseLoad_ir_def parseLoad_tok_def
  by (simp add: lower_simps Let_def split del: if_split cong: if_cong)

lemma parseStore_agree:
  "Option.bind (noerr (parseStore_ir ws k)) lower_line = noerr (parseStore_tok ws k)"
  unfolding parseStore_ir_def parseStore_tok_def
  by (simp add: lower_simps Let_def split del: if_split cong: if_cong)


lemma parseArith_agree:
  "noerr (parseArith d a opr b) =
     Option.bind
       (noerr (if opr = ''+'' then Inr IR_ADD
               else if opr = ''-'' then Inr IR_SUB
               else if opr = ''*'' then Inr IR_MUL
               else if opr = ''/'' then Inr IR_DIV
               else if opr = ''%'' then Inr IR_MOD
               else Inl (RuntimeError (''Unknown operator: '' @ opr))))
       (\<lambda>opc. lower_line [mkIR opc d a b [] [] []])"
  by (simp add: parseArith_def lower_simps)

lemma emitInstr_xzr:
  "noerr (emitInstr i a b ''xzr'') =
     Option.bind (noerr (regToken_tok a)) (\<lambda>ta. Option.bind (noerr (regToken_tok b)) (\<lambda>tb.
       Some [tok ID i, ta, tok COMMA '','', tb, tok COMMA '','', tok ZREG ''xzr'']))"
  by (simp add: emitInstr_def regToken_xzr)

lemma parseLine_agree:
  "Option.bind (noerr (parseLine_ir l)) lower_line = noerr (parseLine_tok l)"
  unfolding parseLine_ir_def parseLine_tok_def
  by (simp add: parseArith_agree parseLoad_agree parseStore_agree lower_simps emitInstr_xzr Let_def
      split del: if_split cong: if_cong)


lemma parseLoad_ir_single: "parseLoad_ir d r = Inr irs \<Longrightarrow> length irs = 1"
  unfolding parseLoad_ir_def Let_def
  by (auto simp: bindE_eq_Inr split: if_splits)

lemma parseStore_ir_single: "parseStore_ir ws k = Inr irs \<Longrightarrow> length irs = 1"
  unfolding parseStore_ir_def Let_def
  by (auto simp: bindE_eq_Inr split: if_splits)

lemma parseLine_ir_length: "parseLine_ir l = Inr irs \<Longrightarrow> length irs \<le> 1"
  unfolding parseLine_ir_def Let_def
  by (auto simp: bindE_eq_Inr split: if_splits dest: parseLoad_ir_single parseStore_ir_single)

lemma groupLines_step_newline: "fst (groupLines_step s (tok NEWLINE [])) = []"
  by (cases s) (simp add: groupLines_step_def tok_def)

lemma blockeq_nil: "blockeq [] []"
  by (simp add: blockeq_def)

lemma blockeq_newline: "blockeq [tok NEWLINE []] []"
  by (simp add: blockeq_def groupLines_step_def tok_def)

lemma blockeq_line: "blockeq (ts @ [tok NEWLINE []]) (ts @ [tok NEWLINE []])"
  by (simp add: blockeq_def groupLines_step_newline)

lemma blockeq_append:
  assumes "blockeq x y" "blockeq x' y'"
  shows "blockeq (x @ x') (y @ y')"
proof -
  have "foldl groupLines_step ([], lines) (x @ x') = foldl groupLines_step ([], lines) (y @ y')
      \<and> fst (foldl groupLines_step ([], lines) (x @ x')) = []" for lines
  proof -
    obtain l1 where x: "foldl groupLines_step ([], lines) x = ([], l1)"
      using assms(1) unfolding blockeq_def
      by (metis prod.collapse)
    have y: "foldl groupLines_step ([], lines) y = ([], l1)"
      using assms(1) x unfolding blockeq_def by metis
    have z: "foldl groupLines_step ([], l1) x' = foldl groupLines_step ([], l1) y'"
            "fst (foldl groupLines_step ([], l1) x') = []"
      using assms(2) unfolding blockeq_def by blast+
    show ?thesis
      unfolding foldl_append x y using z by simp
  qed
  moreover have "filter (\<lambda>t. type t \<noteq> NEWLINE) (x @ x') = filter (\<lambda>t. type t \<noteq> NEWLINE) (y @ y')"
    using assms unfolding blockeq_def by simp
  ultimately show ?thesis
    unfolding blockeq_def by blast
qed

lemma noerr_lower_Cons:
  "noerr (lower (i # r)) =
     Option.bind (noerr (lowerOne i)) (\<lambda>ts. Option.bind (noerr (lower r)) (\<lambda>r'.
       Some (ts @ tok NEWLINE [] # r')))"
  by (simp split: sum.splits)

lemma noerr_parse_lines_tok_comment:
  "strip l = [] \<or> char_at (strip l) 0 = CHR ''#'' \<Longrightarrow>
   noerr (parse_lines_tok (l # ls)) = map_option (\<lambda>r. tok NEWLINE [] # r) (noerr (parse_lines_tok ls))"
  by (simp split: sum.splits)

lemma noerr_parse_lines_tok_stmt:
  "\<not> (strip l = [] \<or> char_at (strip l) 0 = CHR ''#'') \<Longrightarrow>
   noerr (parse_lines_tok (l # ls)) =
     Option.bind (noerr (parseLine_tok (strip l))) (\<lambda>ts.
       Option.bind (noerr (parse_lines_tok ls)) (\<lambda>r. Some (ts @ tok NEWLINE [] # r)))"
  by (simp split: sum.splits)

lemma blockeq_skip_newline: "blockeq a b \<Longrightarrow> blockeq (tok NEWLINE [] # a) b"
  using blockeq_append [OF blockeq_newline, of a b] by simp

lemma blockeq_same_line: "blockeq a b \<Longrightarrow> blockeq (ts @ tok NEWLINE [] # a) (ts @ tok NEWLINE [] # b)"
  using blockeq_append [OF blockeq_line [of ts], of a b] by simp

lemma parse_lines_agree:
  "rel_option blockeq (noerr (parse_lines_tok ls)) (noerr (bindE (parse_lines_ir ls) lower))"
proof (induction ls)
  case Nil
  then show ?case by (simp add: blockeq_nil)
next
  case (Cons l ls)
  let ?A = "noerr (parse_lines_tok ls)"
  let ?B = "noerr (bindE (parse_lines_ir ls) lower)"
  have IH: "rel_option blockeq ?A ?B" by (rule Cons.IH)
  show ?case
  proof (cases "strip l = [] \<or> char_at (strip l) 0 = CHR ''#''")
    case True
    have i: "noerr (bindE (parse_lines_ir (l # ls)) lower) = ?B"
      using True by simp
    have rel: "rel_option blockeq (map_option (\<lambda>r. tok NEWLINE [] # r) ?A) ?B"
      using IH by (cases ?A; cases ?B) (simp_all add: blockeq_skip_newline)
    show ?thesis
      unfolding noerr_parse_lines_tok_comment [OF True] i by (rule rel)
  next
    case False
    let ?s = "strip l"
    have tok: "noerr (parse_lines_tok (l # ls)) =
       Option.bind (noerr (parseLine_tok ?s)) (\<lambda>ts.
         Option.bind ?A (\<lambda>r. Some (ts @ tok NEWLINE [] # r)))"
      by (rule noerr_parse_lines_tok_stmt [OF False])
    show ?thesis
    proof (cases "parseLine_ir ?s")
      case (Inl e)
      then have "noerr (parseLine_tok ?s) = None"
        using parseLine_agree [of ?s] by simp
      then have t: "noerr (parse_lines_tok (l # ls)) = None"
        unfolding tok by simp
      have i: "noerr (bindE (parse_lines_ir (l # ls)) lower) = None"
        using False Inl by simp
      show ?thesis
        unfolding t i by simp
    next
      case (Inr irs)
      have line: "noerr (parseLine_tok ?s) = lower_line irs"
        using parseLine_agree [of ?s] Inr by simp
      have "length irs \<le> 1"
        using parseLine_ir_length [OF Inr] .
      then consider "irs = []" | i where "irs = [i]"
        by (cases irs) auto
      then show ?thesis
      proof cases
        case 1
        have i: "noerr (bindE (parse_lines_ir (l # ls)) lower) = ?B"
          using False Inr 1 by (simp split: sum.splits)
        have t: "noerr (parse_lines_tok (l # ls)) = map_option (\<lambda>r. tok NEWLINE [] # r) ?A"
          unfolding tok line 1 by (cases ?A) simp_all
        have rel: "rel_option blockeq (map_option (\<lambda>r. tok NEWLINE [] # r) ?A) ?B"
          using IH by (cases ?A; cases ?B) (simp_all add: blockeq_skip_newline)
        show ?thesis
          unfolding t i by (rule rel)
      next
        case 2
        let ?C = "noerr (lowerOne i)"
        have t: "noerr (parse_lines_tok (l # ls)) =
            Option.bind ?C (\<lambda>ts. Option.bind ?A (\<lambda>r. Some (ts @ tok NEWLINE [] # r)))"
          unfolding tok line 2 by simp
        show ?thesis
        proof (cases "parse_lines_ir ls")
          case pl: (Inl e)
          then have "?B = None" by simp
          then have "?A = None" using IH by (cases ?A) simp_all
          then have t': "noerr (parse_lines_tok (l # ls)) = None"
            unfolding t by (cases ?C) simp_all
          have i: "noerr (bindE (parse_lines_ir (l # ls)) lower) = None"
            using False Inr pl by simp
          show ?thesis
            unfolding t' i by simp
        next
          case pr: (Inr r)
          then have B: "?B = noerr (lower r)" by simp
          have ir: "noerr (bindE (parse_lines_ir (l # ls)) lower) =
              Option.bind ?C (\<lambda>ts. Option.bind ?B (\<lambda>r'. Some (ts @ tok NEWLINE [] # r')))"
            using False Inr pr 2 unfolding B by (simp add: noerr_lower_Cons del: lower.simps)
          show ?thesis
            unfolding t ir using IH
            by (cases ?C; cases ?A; cases ?B) (simp_all add: blockeq_same_line)
        qed
      qed
    qed
  qed
qed

text \<open>
  Claim C10.  For every pseudocode input, the token-emitting parser of highlevel.h and
  the IR-producing parser followed by \<open>IRCodeGen::lower\<close> either both end in an
  exception, or both yield token streams with the same tokens other than \<open>NEWLINE\<close>,
  which \<open>groupLines\<close> groups into the same statements, so that \<open>assemble\<close> behaves the
  same on both; the two \<open>--high\<close> pipelines write the same bytes and fail together.
\<close>

theorem front_ends_equivalent:
  "front_ends_agree (parse_tok input) (bindE (parse_ir input) lower)
   \<and> fst (high_tok input) = fst (high_ir input)
   \<and> isl (snd (high_tok input)) = isl (snd (high_ir input))"
proof -
  have r: "rel_option blockeq (noerr (parse_tok input)) (noerr (bindE (parse_ir input) lower))"
    unfolding parse_tok_def parse_ir_def by (rule parse_lines_agree)
  show ?thesis
  proof (cases "parse_tok input")
    case (Inl e)
    then have "noerr (bindE (parse_ir input) lower) = None"
      using r by (cases "noerr (bindE (parse_ir input) lower)") simp_all
    then obtain e' where "bindE (parse_ir input) lower = Inl e'"
      by (cases "bindE (parse_ir input) lower") simp_all
    then show ?thesis
      using Inl by (simp add: front_ends_agree_def high_tok_def high_ir_def)
  next
    case (Inr ts)
    then obtain ts' where i: "bindE (parse_ir input) lower = Inr ts'" and b: "blockeq ts ts'"
      using r by (cases "bindE (parse_ir input) lower") auto
    have "foldl groupLines_step ([], []) ts = foldl groupLines_step ([], []) ts'"
      using b unfolding blockeq_def by blast
    then have g: "groupLines ts = groupLines ts'"
      by (simp add: groupLines_def)
    then have a: "assemble ts = assemble ts'"
      by (simp add: assemble_def)
    have f: "filter (\<lambda>t. type t \<noteq> NEWLINE) ts = filter (\<lambda>t. type t \<noteq> NEWLINE) ts'"
      using b unfolding blockeq_def by blast
    show ?thesis
      using Inr i g a f by (simp add: front_ends_agree_def high_tok_def high_ir_def)
  qed
qed

theorem front_ends_equivalent_witness:
  "parse_tok ''label loop\<newline># sum\<newline>\<newline>x1 = x1 + x3\<newline>goto loop'' =
     Inr [tok LABEL ''loop:'', tok NEWLINE [], tok NEWLINE [], tok NEWLINE [],
          tok ID ''add'', tok REG ''x1'', tok COMMA '','', tok REG ''x1'', tok COMMA '','', tok REG ''x3'',
          tok NEWLINE [], tok ID ''b'', tok ID ''loop'', tok NEWLINE []]
   \<and> bindE (parse_ir ''label loop\<newline># sum\<newline>\<newline>x1 = x1 + x3\<newline>goto loop'') lower =
     Inr [tok LABEL ''loop:'', tok NEWLINE [],
          tok ID ''add'', tok REG ''x1'', tok COMMA '','', tok REG ''x1'', tok COMMA '','', tok REG ''x3'',
          tok NEWLINE [], tok ID ''b'', tok ID ''loop'', tok NEWLINE []]
   \<and> groupLines [tok LABEL ''loop:'', tok NEWLINE [], tok NEWLINE [], tok NEWLINE [],
          tok ID ''add'', tok REG ''x1'', tok COMMA '','', tok REG ''x1'', tok COMMA '','', tok REG ''x3'',
          tok NEWLINE [], tok ID ''b'', tok ID ''loop'', tok NEWLINE []]
     = groupLines [tok LABEL ''loop:'', tok NEWLINE [],
          tok ID ''add'', tok REG ''x1'', tok COMMA '','', tok REG ''x1'', tok COMMA '','', tok REG ''x3'',
          tok NEWLINE [], tok ID ''b'', tok ID ''loop'', tok NEWLINE []]
   \<and> fst (high_tok ''label loop\<newline># sum\<newline>\<newline>x1 = x1 + x3\<newline>goto loop'')
     = fst (high_ir ''label loop\<newline># sum\<newline>\<newline>x1 = x1 + x3\<newline>goto loop'')
   \<and> high_ir ''label loop\<newline># sum\<newline>\<newline>x1 = x1 + x3\<newline>goto loop''
     = ([0x21, 0x60, 0x23, 0x8B, 0xFF, 0xFF, 0xFF, 0x17], Inr [(''loop'', 0)])
   \<and> isl (parse_tok ''x1 = x2 ?? x3'') \<and> isl (bindE (parse_ir ''x1 = x2 ?? x3'') lower)"
proof -
  let ?P = "''label loop\<newline># sum\<newline>\<newline>x1 = x1 + x3\<newline>goto loop''"
  have a: "parse_tok ?P =
     Inr [tok LABEL ''loop:'', tok NEWLINE [], tok NEWLINE [], tok NEWLINE [],
          tok ID ''add'', tok REG ''x1'', tok COMMA '','', tok REG ''x1'', tok COMMA '','', tok REG ''x3'',
          tok NEWLINE [], tok ID ''b'', tok ID ''loop'', tok NEWLINE []]"
    by code_simp
  have b: "bindE (parse_ir ?P) lower =
     Inr [tok LABEL ''loop:'', tok NEWLINE [],
          tok ID ''add'', tok REG ''x1'', tok COMMA '','', tok REG ''x1'', tok COMMA '','', tok REG ''x3'',
          tok NEWLINE [], tok ID ''b'', tok ID ''loop'', tok NEWLINE []]"
    by code_simp
  have c: "high_ir ?P = ([0x21, 0x60, 0x23, 0x8B, 0xFF, 0xFF, 0xFF, 0x17], Inr [(''loop'', 0)])"
    by code_simp
  have d: "isl (parse_tok ''x1 = x2 ?? x3'')"
    by code_simp
  have g: "groupLines [tok LABEL ''loop:'', tok NEWLINE [], tok NEWLINE [], tok NEWLINE [],
          tok ID ''add'', tok REG ''x1'', tok COMMA '','', tok REG ''x1'', tok COMMA '','', tok REG ''x3'',
          tok NEWLINE [], tok ID ''b'', tok ID ''loop'', tok NEWLINE []]
     = groupLines [tok LABEL ''loop:'', tok NEWLINE [],
          tok ID ''add'', tok REG ''x1'', tok COMMA '','', tok REG ''x1'', tok COMMA '','', tok REG ''x3'',
          tok NEWLINE [], tok ID ''b'', tok ID ''loop'', tok NEWLINE []]"
    using front_ends_equivalent [of ?P] unfolding a b front_ends_agree_def by simp
  have e: "isl (bindE (parse_ir ''x1 = x2 ?? x3'') lower)"
    using front_ends_equivalent [of "''x1 = x2 ?? x3''"] d
    by (cases "parse_tok ''x1 = x2 ?? x3''") (simp_all add: front_ends_agree_def)
  have f: "fst (high_tok ?P) = fst (high_ir ?P)"
    using front_ends_equivalent [of ?P] by simp
  show ?thesis
    using a b c d e f g by simp
qed

end
